theory Spec2Isabelle
  imports Main "HOL-Library.Word" "HOL-Library.Signed_Division"
begin

section \<open>Machine integers of the ATtiny25\<close>

text \<open>
  The firmware is compiled for the ATtiny25 (avr-gcc): \<open>int\<close> is a 16-bit two's
  complement integer (the table's \<open>int\<close> fields are read with \<open>pgm_read_word\<close>) and
  \<open>unsigned char\<close> has 8 bits. Local variables are modelled as \<open>int\<close> with the
  wrap-around of the machine type written out at every operation that can leave the range.
  For \<open>unsigned char\<close> this is the arithmetic of C; for \<open>int\<close>, where C leaves overflow
  undefined, it is what the two's complement arithmetic of the AVR computes.
\<close>

definition int16 :: "int \<Rightarrow> int" where
  "int16 x = (x + 32768) mod 65536 - 32768"

definition uchar :: "int \<Rightarrow> int" where
  "uchar x = x mod 256"

section \<open>The light table\<close>

record rgbElement =
  fadeTime :: "16 word"
  holdTime :: "16 word"
  red :: "8 word"
  green :: "8 word"
  blue :: "8 word"

definition elem :: "16 word \<Rightarrow> 16 word \<Rightarrow> 8 word \<Rightarrow> 8 word \<Rightarrow> 8 word \<Rightarrow> rgbElement" where
  "elem f h r g b = \<lparr>fadeTime = f, holdTime = h, red = r, green = g, blue = b\<rparr>"

definition lightTab :: "rgbElement list" where
  "lightTab =
     [elem     0   500   0   0   0,
     elem   500   500 255   0   0,
     elem   500   500   0 255   0,
     elem   500   500   0   0 255,
     elem   500   500   0 255 255,
     elem   500   500 255   0 255,
     elem   500   500 255 255   0,
     elem   500  2500 255 255 255,
     elem  7000  2500 255   0   0,
     elem  7000  2500   0 255   0,
     elem  7000  2500   0   0 255,
     elem  7000  2500 155  64   0,
     elem  7000  2500  64 255  64,
     elem  7000  2500   0  64 255,
     elem  7000  2500  64   0  64,
     elem  7000  1500 155   0   0,
     elem  7000  1500   0 255   0,
     elem  7000  1500   0   0 255,
     elem  7000  1500 140   0 240,
     elem  7000  1500 155 155   0,
     elem  7000  1500 155 255 255,
     elem  7000  1500 128 128 128,
     elem  7000  1500  48  48  58,
     elem  7000  1500   0   0   0,
     elem  2500  2500 155   0   0,
     elem  2500  2500 155 255   0,
     elem  2500  2500   0 255   0,
     elem  2500  2500   0 255 255,
     elem  2500  2500   0   0 255,
     elem  2500  2500 155   0 255,
     elem  2500     0   0   0   0,
     elem  2500  2500 155   0   0,
     elem  2500  2500 155 255   0,
     elem  2500  2500   0 255   0,
     elem  2500  2500   0 255 255,
     elem  2500  2500   0   0 255,
     elem  2500  2500 155   0 255,
     elem  2500     0   0   0   0,
     elem  2500  2500 154  32   0,
     elem  2500  2500 154 128   0,
     elem  2500  2500 154 240   0,
     elem  2500  2500 128 240   0,
     elem     0  2500   0   0   0,
     elem  2500  2500   0  16 255,
     elem  2500  2500   0 128 255,
     elem  2500  2500   0 240 128,
     elem  2500  2500  16  16 240,
     elem  2500  2500 140  16 240,
     elem  2500  2500  64   0 250,
     elem     0  2500  10  10  10,
     elem     0  2500   0   0   0,
     elem  2500  2500 140   0 240,
     elem  2500  2500  32   0 240,
     elem  2500  2500 128   0 128,
     elem  2500  2500 140   0  32,
     elem  2500     0   0   0  10,
     elem  2500     0   0   0   0,
     elem  1000  1000   0   0   0,
     elem  1000  1000  32   0   0,
     elem  1000  1000  64   0   0,
     elem     0  1000  96   0   0,
     elem  1000     0 128   0   0,
     elem  1000     0 160  32   0,
     elem  1000     0 192  64   0,
     elem  1000     0 124  96   0,
     elem     0  1000 155 128   0,
     elem  1000  1000   0 160   0,
     elem     0  1000   0 192   0,
     elem  1000  1000   0 224  32,
     elem  1000     0   0 255  64,
     elem  1000     0   0   0  96,
     elem  1000     0   0   0 128,
     elem  1000     0   0   0 160,
     elem  1000     0   0   0 192,
     elem  1000     0   0   0 224,
     elem  1000  1000   0   0 255,
     elem  1000     0   0   0   0,
     elem     0  1000   0   0 255,
     elem  1000  1000  32   0   0,
     elem  1000  1000  96   0   0,
     elem  1000  1000 160   0   0,
     elem  1000     0 255   0   0,
     elem  1000  1000   0  96   0,
     elem  1000  1000   0 160  32,
     elem  1000  1000   0 224  64,
     elem  1000  1000   0 255  96,
     elem  1000  1000   0   0 128,
     elem  1000  1000   0   0 160,
     elem  1000  1000   0  32 192,
     elem  1000  1000   0  64 224,
     elem  1000  1000   0  96 225,
     elem  1000  1000   0 128   0,
     elem  1000  1000   0 160   0,
     elem  1000  1000   0 192  32,
     elem  1000  1000   0 224  64,
     elem  1000  1000   0 255  96,
     elem  1000  1000   0   0 255,
     elem  1000  1000   0   0   0,
     elem     0     0   0   0   0]"

text \<open>
  The test of the \<open>do ... while\<close> loop of \<open>main\<close>: both words of the entry read as 0.
\<close>

definition is_sentinel :: "rgbElement \<Rightarrow> bool" where
  "is_sentinel e = (fadeTime e = 0 \<and> holdTime e = 0)"

section \<open>Outputs\<close>

text \<open>
  What the firmware does to the outside is a sequence of events: a write to one of the
  three PWM compare registers (\<open>OCR1A\<close> red, \<open>OCR1B\<close> blue, \<open>OCR0A\<close> green), or a call
  of \<open>delay_ten_us\<close> with its argument. \<open>delay_ten_us\<close> is a busy-wait that counts its
  argument down to 0 and returns; one call with argument 100 is one tick.
\<close>

datatype reg = OCR1A | OCR1B | OCR0A

datatype event = Write reg int | Delay_ten_us int

fun is_write :: "reg \<Rightarrow> event \<Rightarrow> bool" where
  "is_write r (Write r' v) = (r' = r)"
| "is_write r (Delay_ten_us n) = False"

fun is_delay :: "event \<Rightarrow> bool" where
  "is_delay (Write r v) = False"
| "is_delay (Delay_ten_us n) = True"

definition count_writes :: "reg \<Rightarrow> event list \<Rightarrow> nat" where
  "count_writes r tr = length (filter (is_write r) tr)"

definition count_delays :: "event list \<Rightarrow> nat" where
  "count_delays tr = length (filter is_delay tr)"

text \<open>The value a register holds after a trace: that of the last write to it.\<close>

fun last_write :: "reg \<Rightarrow> event list \<Rightarrow> int option" where
  "last_write r [] = None"
| "last_write r (Write r' v # es) =
     (case last_write r es of Some w \<Rightarrow> Some w | None \<Rightarrow> (if r' = r then Some v else None))"
| "last_write r (Delay_ten_us n # es) = last_write r es"

text \<open>
  The three assignments \<open>OCR1A = r; OCR1B = b; OCR0A = g;\<close> in the order of the source.
\<close>

definition set_leds :: "int \<Rightarrow> int \<Rightarrow> int \<Rightarrow> event list" where
  "set_leds r g b = [Write OCR1A r, Write OCR1B b, Write OCR0A g]"

section \<open>One channel of sendrgbElement\<close>

text \<open>
  \<open>sendrgbElement\<close> repeats the same code for red, green and blue. The model has it once:
  a \<open>channel\<close> holds \<open>redTemp\<close>, \<open>redTime\<close>, \<open>redTimeInc\<close> and \<open>redInc\<close> (and the same for
  green and blue).
\<close>

record channel =
  Temp :: int
  Time :: int
  TimeInc :: int
  Inc :: int

text \<open>
  \<open>redTime\<close> before the loop: 0 when \<open>redDelta\<close> is 0, otherwise the C division
  (truncating, \<open>sdiv\<close>), its absolute value, plus 1, each in 16 bits.
\<close>

definition timeInc :: "int \<Rightarrow> int \<Rightarrow> int" where
  "timeInc FadeTime Delta =
     (if Delta \<noteq> 0 then
        (let t = int16 (FadeTime sdiv Delta);
             t' = (if t < 0 then int16 (- t) else t)
         in int16 (t' + 1))
      else 0)"

definition chan_init :: "int \<Rightarrow> int \<Rightarrow> int \<Rightarrow> channel" where
  "chan_init FadeTime Target Prev =
     (let Delta = Target - Prev
      in \<lparr>Temp = Prev,
          Time = timeInc FadeTime Delta,
          TimeInc = timeInc FadeTime Delta,
          Inc = (if Delta < 0 then uchar (- 1) else 1)\<rparr>)"

definition chan_step :: "int \<Rightarrow> channel \<Rightarrow> channel" where
  "chan_step fadeCounter ch =
     (if fadeCounter = Time ch
      then ch\<lparr>Temp := uchar (Temp ch + Inc ch), Time := int16 (Time ch + TimeInc ch)\<rparr>
      else ch)"

section \<open>The fade loop\<close>

record fade_state =
  fadeCounter :: int
  redc :: channel
  greenc :: channel
  bluec :: channel

definition fade_body :: "fade_state \<Rightarrow> fade_state" where
  "fade_body s =
     \<lparr>fadeCounter = int16 (fadeCounter s + 1),
      redc = chan_step (fadeCounter s) (redc s),
      greenc = chan_step (fadeCounter s) (greenc s),
      bluec = chan_step (fadeCounter s) (bluec s)\<rparr>"

definition fade_out :: "fade_state \<Rightarrow> event list" where
  "fade_out s =
     set_leds (Temp (redc s)) (Temp (greenc s)) (Temp (bluec s)) @ [Delay_ten_us 100]"

text \<open>
  \<open>for (int fadeCounter=1; fadeCounter<=FadeTime; fadeCounter++)\<close>: with a 16-bit
  counter the test never fails when \<open>FadeTime\<close> is 32767, so the loop is partial:
  \<open>None\<close> is a loop that does not return.
\<close>

partial_function (option) fade_loop ::
  "int \<Rightarrow> fade_state \<Rightarrow> event list \<Rightarrow> (fade_state \<times> event list) option" where
  "fade_loop FadeTime s out =
     (if fadeCounter s \<le> FadeTime
      then fade_loop FadeTime (fade_body s) (out @ fade_out (fade_body s))
      else Some (s, out))"

text \<open>The state after \<open>n\<close> iterations, when the loop runs that many.\<close>

fun fade_iter :: "int \<Rightarrow> nat \<Rightarrow> fade_state \<Rightarrow> fade_state option" where
  "fade_iter FadeTime 0 s = Some s"
| "fade_iter FadeTime (Suc n) s =
     (if fadeCounter s \<le> FadeTime then fade_iter FadeTime n (fade_body s) else None)"

section \<open>The hold loop\<close>

text \<open>
  \<open>for (int holdCounter=0; holdCounter<HoldTime; holdCounter++)\<close>: the counter is
  incremented only below \<open>HoldTime\<close>, which is at most 32767, so it never wraps.
\<close>

function hold_loop :: "int \<Rightarrow> int \<Rightarrow> event list" where
  "hold_loop holdCounter HoldTime =
     (if holdCounter < HoldTime
      then Delay_ten_us 100 # hold_loop (holdCounter + 1) HoldTime
      else [])"
  by pat_completeness auto
termination
  by (relation "measure (\<lambda>(c, h). nat (h - c))") auto

declare hold_loop.simps [simp del]

section \<open>sendrgbElement\<close>

datatype error = OutOfBounds

definition in_table :: "rgbElement list \<Rightarrow> int \<Rightarrow> bool" where
  "in_table tab index = (0 \<le> index \<and> index < int (length tab))"

text \<open>\<open>255 - pgm_read_byte(...)\<close>, stored in an \<open>unsigned char\<close>.\<close>

definition inverted :: "8 word \<Rightarrow> int" where
  "inverted v = uchar (255 - uint v)"

definition target_of :: "rgbElement list \<Rightarrow> int \<Rightarrow> (rgbElement \<Rightarrow> 8 word) \<Rightarrow> int" where
  "target_of tab index col = inverted (col (tab ! nat index))"

definition prev_of :: "rgbElement list \<Rightarrow> int \<Rightarrow> (rgbElement \<Rightarrow> 8 word) \<Rightarrow> int" where
  "prev_of tab index col =
     (if index \<noteq> 0 then inverted (col (tab ! nat (index - 1))) else 0)"

definition fade_init :: "rgbElement list \<Rightarrow> int \<Rightarrow> fade_state" where
  "fade_init tab index =
     (let e = tab ! nat index;
          FadeTime = sint (fadeTime e)
      in \<lparr>fadeCounter = 1,
          redc = chan_init FadeTime (target_of tab index red) (prev_of tab index red),
          greenc = chan_init FadeTime (target_of tab index green) (prev_of tab index green),
          bluec = chan_init FadeTime (target_of tab index blue) (prev_of tab index blue)\<rparr>)"

definition sendrgbElement :: "rgbElement list \<Rightarrow> int \<Rightarrow> (error + event list) option" where
  "sendrgbElement tab index =
     (if \<not> in_table tab index then Some (Inl OutOfBounds)
      else
        (let e = tab ! nat index;
             FadeTime = sint (fadeTime e);
             HoldTime = sint (holdTime e);
             Red = target_of tab index red;
             Green = target_of tab index green;
             Blue = target_of tab index blue;
             blink = (if FadeTime = 0 then set_leds Red Green Blue else [])
         in case fade_loop FadeTime (fade_init tab index) [] of
              None \<Rightarrow> None
            | Some (s, out) \<Rightarrow>
                Some (Inr (blink @ out @ set_leds Red Green Blue @ hold_loop 0 HoldTime))))"

section \<open>main\<close>

text \<open>
  The \<open>do ... while\<close> loop of \<open>main\<close>: play the entry at \<open>index\<close>, increment, and go on
  unless the entry now at \<open>index\<close> is the sentinel. It returns the index at which it
  stopped and the events of the pass.
\<close>

partial_function (option) do_while ::
  "rgbElement list \<Rightarrow> int \<Rightarrow> event list \<Rightarrow> (error + int \<times> event list) option" where
  "do_while tab index out =
     (case sendrgbElement tab index of
        None \<Rightarrow> None
      | Some (Inl err) \<Rightarrow> Some (Inl err)
      | Some (Inr tr) \<Rightarrow>
          (let index' = int16 (index + 1)
           in if \<not> in_table tab index' then Some (Inl OutOfBounds)
              else if \<not> is_sentinel (tab ! nat index')
              then do_while tab index' (out @ tr)
              else Some (Inr (index', out @ tr))))"

text \<open>
  The \<open>for\<close> loop of \<open>main\<close>: 360 passes, each followed by \<open>index = 0\<close>.
\<close>

function main_for ::
  "rgbElement list \<Rightarrow> int \<Rightarrow> int \<Rightarrow> event list \<Rightarrow> (error + event list) option" where
  "main_for tab count index out =
     (if count < 360 then
        (case do_while tab index [] of
           None \<Rightarrow> None
         | Some (Inl err) \<Rightarrow> Some (Inl err)
         | Some (Inr (index', tr)) \<Rightarrow> main_for tab (count + 1) 0 (out @ tr))
      else Some (Inr out))"
  by pat_completeness auto
termination
  by (relation "measure (\<lambda>(tab, count, index, out). nat (360 - count))") auto

declare main_for.simps [simp del]


section \<open>Closed forms and invariants used in the proofs\<close>

text \<open>The events of the first \<open>n\<close> iterations of the fade loop from state \<open>s\<close>.\<close>

fun fade_events :: "nat \<Rightarrow> fade_state \<Rightarrow> event list" where
  "fade_events 0 s = []"
| "fade_events (Suc n) s = fade_out (fade_body s) @ fade_events n (fade_body s)"

text \<open>
  The events of one call of \<open>sendrgbElement\<close> whose fade loop returns: the blink writes
  when \<open>FadeTime\<close> is 0, one iteration per tick of \<open>FadeTime\<close>, the final writes, the hold.
\<close>

definition keyframe_events :: "rgbElement list \<Rightarrow> int \<Rightarrow> event list" where
  "keyframe_events tab index =
     (let e = tab ! nat index;
          FadeTime = sint (fadeTime e);
          HoldTime = sint (holdTime e);
          leds = set_leds (target_of tab index red) (target_of tab index green)
                   (target_of tab index blue)
      in (if FadeTime = 0 then leds else []) @
         fade_events (nat FadeTime) (fade_init tab index) @
         leds @ replicate (nat HoldTime) (Delay_ten_us 100))"

text \<open>
  The events of the entries \<open>0, ..., n - 1\<close> played one after the other.
\<close>

definition pass_events :: "rgbElement list \<Rightarrow> nat \<Rightarrow> event list" where
  "pass_events tab n = concat (map (\<lambda>j. keyframe_events tab (int j)) [0..<n])"

text \<open>
  The invariant of one channel at loop counter \<open>c\<close>, for target \<open>T\<close> and previous value
  \<open>P\<close>: after \<open>k\<close> adjustments the value is \<open>k\<close> units from \<open>P\<close> towards \<open>T\<close>, the next
  adjustment is due at \<open>(k + 1) * TimeInc\<close>, and the counter has passed \<open>k * TimeInc\<close>.
\<close>

definition chan_inv :: "int \<Rightarrow> int \<Rightarrow> int \<Rightarrow> int \<Rightarrow> channel \<Rightarrow> bool" where
  "chan_inv F T P c ch \<longleftrightarrow>
     TimeInc ch = timeInc F (T - P) \<and> Inc ch = (if T - P < 0 then 255 else 1) \<and>
     (if T = P then Temp ch = P \<and> Time ch = 0
      else (\<exists>k. 0 \<le> k \<and> Temp ch = P + sgn (T - P) * k \<and>
              Time ch = int16 ((k + 1) * timeInc F (T - P)) \<and>
              k * timeInc F (T - P) < c \<and> c \<le> (k + 1) * timeInc F (T - P)))"

text \<open>
  A table the \<open>do ... while\<close> loop of \<open>main\<close> can play: at least one entry before the
  last one, the last entry is the sentinel, no entry before it is, no fade time is the
  largest \<open>int\<close>, and every index fits an \<open>int\<close>.
\<close>

definition playable :: "rgbElement list \<Rightarrow> bool" where
  "playable tab \<longleftrightarrow>
     1 < length tab \<and> length tab \<le> 32767 \<and> is_sentinel (last tab) \<and>
     list_all (\<lambda>e. \<not> is_sentinel e \<and> sint (fadeTime e) \<noteq> 32767) (butlast tab)"




text \<open>
  Durations that are not negative, and the sum the specification speaks of: fade time plus
  hold time over a list of entries.
\<close>

definition nonneg_times :: "rgbElement list \<Rightarrow> bool" where
  "nonneg_times tab = list_all (\<lambda>e. 0 \<le> sint (fadeTime e) \<and> 0 \<le> sint (holdTime e)) tab"

definition total_ticks :: "rgbElement list \<Rightarrow> int" where
  "total_ticks tab = sum_list (map (\<lambda>e. sint (fadeTime e) + sint (holdTime e)) tab)"

section \<open>Proofs\<close>

subsection \<open>Machine arithmetic and the loops in closed form\<close>

lemma int16_id: "- 32768 \<le> x \<Longrightarrow> x \<le> 32767 \<Longrightarrow> int16 x = x"
  by (simp add: int16_def)

lemma int16_range: "- 32768 \<le> int16 x \<and> int16 x \<le> 32767"
  unfolding int16_def
  using pos_mod_bound [of 65536 "x + 32768"] pos_mod_sign [of 65536 "x + 32768"]
  by linarith

lemma int16_high: "32767 < x \<Longrightarrow> x < 98304 \<Longrightarrow> int16 x = x - 65536"
proof -
  assume a: "32767 < x" "x < 98304"
  have "x + 32768 = (x - 32768) + 65536" by linarith
  then have "(x + 32768) mod 65536 = ((x - 32768) + 65536) mod 65536" by (simp only:)
  also have "\<dots> = (x - 32768) mod 65536" by (simp only: mod_add_self2)
  also have "\<dots> = x - 32768" using a by (intro mod_pos_pos_trivial) linarith+
  finally show ?thesis unfolding int16_def by linarith
qed

lemma int16_low: "- 98305 < x \<Longrightarrow> x < - 32768 \<Longrightarrow> int16 x = x + 65536"
proof -
  assume a: "- 98305 < x" "x < - 32768"
  have e: "(x + 32768) + 65536 = x + 98304" by linarith
  have "(x + 32768) mod 65536 = ((x + 32768) + 65536) mod 65536" by (simp only: mod_add_self2)
  also have "\<dots> = (x + 98304) mod 65536" by (simp only: e)
  also have "\<dots> = x + 98304" using a by (intro mod_pos_pos_trivial) linarith+
  finally show ?thesis unfolding int16_def by linarith
qed
lemma int16_add_left: "int16 (int16 a + b) = int16 (a + b)"
  unfolding int16_def by (simp add: mod_simps ac_simps)

lemma uchar_id: "0 \<le> x \<Longrightarrow> x \<le> 255 \<Longrightarrow> uchar x = x"
  by (simp add: uchar_def)

lemma uchar_range: "0 \<le> uchar x \<and> uchar x \<le> 255"
  unfolding uchar_def
  using pos_mod_bound [of 256 x] pos_mod_sign [of 256 x]
  by linarith

lemma uint8_bounds: "0 \<le> uint (v :: 8 word) \<and> uint v \<le> 255"
  using uint_lt2p [of v] by simp

lemma inverted_eq: "inverted v = 255 - uint v"
  unfolding inverted_def using uint8_bounds [of v] by (simp add: uchar_id)

lemma inverted_range: "0 \<le> inverted v \<and> inverted v \<le> 255"
  unfolding inverted_eq using uint8_bounds [of v] by simp

lemma sint16_bounds: "- 32768 \<le> sint (w :: 16 word) \<and> sint w \<le> 32767"
  using sint_ge [of w] sint_lt [of w] by simp

text \<open>The increment of the hold counter stays in the 16 bits of an \<open>int\<close>.\<close>

lemma hold_counter_no_wrap:
  "- 32768 \<le> holdCounter \<Longrightarrow> holdCounter < HoldTime \<Longrightarrow> HoldTime \<le> 32767 \<Longrightarrow>
   int16 (holdCounter + 1) = holdCounter + 1"
  by (simp add: int16_id)

lemma hold_loop_eq: "hold_loop c h = replicate (nat (h - c)) (Delay_ten_us 100)"
proof (induction c h rule: hold_loop.induct)
  case (1 c h)
  show ?case
  proof (cases "c < h")
    case True
    then have "nat (h - c) = Suc (nat (h - (c + 1)))" by simp
    with True 1 show ?thesis by (subst hold_loop.simps) simp
  next
    case False
    then show ?thesis by (subst hold_loop.simps) simp
  qed
qed

lemma fade_body_counter: "fadeCounter (fade_body s) = int16 (fadeCounter s + 1)"
  by (simp add: fade_body_def)

lemma fade_loop_run:
  "n = nat (F + 1 - fadeCounter s) \<Longrightarrow> - 32768 \<le> fadeCounter s \<Longrightarrow> fadeCounter s \<le> F + 1
    \<Longrightarrow> F < 32767 \<Longrightarrow>
   fade_loop F s out = Some ((fade_body ^^ n) s, out @ fade_events n s)"
proof (induction n arbitrary: s out)
  case 0
  then have "\<not> fadeCounter s \<le> F" by simp
  with 0 show ?case by (subst fade_loop.simps) simp
next
  case (Suc n)
  then have le: "fadeCounter s \<le> F" by simp
  have c: "fadeCounter (fade_body s) = fadeCounter s + 1"
    using Suc.prems le by (simp add: fade_body_counter int16_id)
  have "fade_loop F (fade_body s) (out @ fade_out (fade_body s)) =
        Some ((fade_body ^^ n) (fade_body s), (out @ fade_out (fade_body s)) @ fade_events n (fade_body s))"
    using Suc.prems le c by (intro Suc.IH) simp_all
  then show ?case using le
    by (subst fade_loop.simps) (simp add: funpow_swap1)
qed

lemma fade_iter_run:
  "n \<le> nat (F + 1 - fadeCounter s) \<Longrightarrow> - 32768 \<le> fadeCounter s \<Longrightarrow> F < 32767 \<Longrightarrow>
   fade_iter F n s = Some ((fade_body ^^ n) s)"
proof (induction n arbitrary: s)
  case 0
  show ?case by simp
next
  case (Suc n)
  then have le: "fadeCounter s \<le> F" by simp
  have c: "fadeCounter (fade_body s) = fadeCounter s + 1"
    using Suc.prems le by (simp add: fade_body_counter int16_id)
  have "fade_iter F n (fade_body s) = Some ((fade_body ^^ n) (fade_body s))"
    using Suc.prems le c by (intro Suc.IH) simp_all
  then show ?case using le by (simp add: funpow_swap1)
qed

subsection \<open>The step interval\<close>

lemma sdiv_pos: "0 < F \<Longrightarrow> d \<noteq> 0 \<Longrightarrow> \<bar>F sdiv d\<bar> = F div \<bar>d\<bar>"
  for F d :: int
  by (simp add: signed_divide_int_def abs_mult sgn_if div_int_pos_iff)

lemma div_abs_bound: "0 < F \<Longrightarrow> d \<noteq> 0 \<Longrightarrow> 0 \<le> F div \<bar>d\<bar> \<and> F div \<bar>d\<bar> \<le> F"
  for F d :: int
proof -
  assume F: "0 < F" and d: "d \<noteq> 0"
  have "F div \<bar>d\<bar> \<le> F div 1"
    by (rule zdiv_mono2) (use F d in auto)
  moreover have "0 \<le> F div \<bar>d\<bar>" using F by (simp add: div_int_pos_iff)
  ultimately show ?thesis by simp
qed

lemma timeInc_wrap:
  assumes "0 < F" "F \<le> 32767" "d \<noteq> 0"
  shows "timeInc F d = int16 (\<bar>F sdiv d\<bar> + 1)"
proof -
  have b: "0 \<le> F div \<bar>d\<bar> \<and> F div \<bar>d\<bar> \<le> F" using assms by (intro div_abs_bound) auto
  have a: "\<bar>F sdiv d\<bar> = F div \<bar>d\<bar>" using assms by (simp add: sdiv_pos)
  then have r: "- 32768 \<le> F sdiv d \<and> F sdiv d \<le> 32767" using b assms by linarith
  then have 1: "int16 (F sdiv d) = F sdiv d" by (simp add: int16_id)
  have 2: "(if F sdiv d < 0 then int16 (- (F sdiv d)) else F sdiv d) = \<bar>F sdiv d\<bar>"
    using r a b assms by (auto simp: int16_id)
  show ?thesis using assms by (simp add: timeInc_def Let_def 1 2)
qed

lemma timeInc_exact:
  assumes "0 < F" "F \<le> 32767" "d \<noteq> 0" "\<not> (F = 32767 \<and> \<bar>d\<bar> = 1)"
  shows "timeInc F d = F div \<bar>d\<bar> + 1"
proof -
  have b: "0 \<le> F div \<bar>d\<bar> \<and> F div \<bar>d\<bar> \<le> F" using assms by (intro div_abs_bound) auto
  have "F div \<bar>d\<bar> \<le> 32766"
  proof (cases "\<bar>d\<bar> = 1")
    case True
    then show ?thesis using assms by simp
  next
    case False
    then have "2 \<le> \<bar>d\<bar>" using assms by linarith
    then have "F div \<bar>d\<bar> \<le> F div 2" using assms by (intro zdiv_mono2) auto
    then show ?thesis using assms by linarith
  qed
  then show ?thesis using assms b by (simp add: timeInc_wrap sdiv_pos int16_id)
qed

lemma timeInc_gt:
  assumes "0 < F" "F < 32767" "d \<noteq> 0"
  shows "F < timeInc F d * \<bar>d\<bar>" "0 < timeInc F d" "timeInc F d \<le> F + 1"
proof -
  have e: "timeInc F d = F div \<bar>d\<bar> + 1" using assms by (intro timeInc_exact) auto
  have b: "0 \<le> F div \<bar>d\<bar> \<and> F div \<bar>d\<bar> \<le> F" using assms by (intro div_abs_bound) auto
  have "F = F div \<bar>d\<bar> * \<bar>d\<bar> + F mod \<bar>d\<bar>" by simp
  moreover have "F mod \<bar>d\<bar> < \<bar>d\<bar>" using assms by (intro pos_mod_bound) auto
  ultimately have "F < F div \<bar>d\<bar> * \<bar>d\<bar> + \<bar>d\<bar>" by linarith
  then show "F < timeInc F d * \<bar>d\<bar>" by (simp add: e algebra_simps)
  show "0 < timeInc F d" using b e by simp
  show "timeInc F d \<le> F + 1" using b e by simp
qed


subsection \<open>The invariant of one channel\<close>

lemma chan_inv_init:
  assumes "0 < F" "F < 32767"
  shows "chan_inv F T P 1 (chan_init F T P)"
proof (cases "T = P")
  case True
  then show ?thesis by (simp add: chan_inv_def chan_init_def timeInc_def uchar_def Let_def)
next
  case False
  then have d: "T - P \<noteq> 0" by simp
  note g = timeInc_gt [OF assms d]
  have "int16 (timeInc F (T - P)) = timeInc F (T - P)"
    using g assms by (intro int16_id) linarith+
  then have "0 \<le> (0::int) \<and> Temp (chan_init F T P) = P + sgn (T - P) * 0 \<and>
      Time (chan_init F T P) = int16 ((0 + 1) * timeInc F (T - P)) \<and>
      0 * timeInc F (T - P) < 1 \<and> 1 \<le> (0 + 1) * timeInc F (T - P)"
    using g by (simp add: chan_init_def Let_def)
  then have "\<exists>k. 0 \<le> k \<and> Temp (chan_init F T P) = P + sgn (T - P) * k \<and>
      Time (chan_init F T P) = int16 ((k + 1) * timeInc F (T - P)) \<and>
      k * timeInc F (T - P) < 1 \<and> 1 \<le> (k + 1) * timeInc F (T - P)"
    by (rule exI)
  then show ?thesis using False by (simp add: chan_inv_def chan_init_def uchar_def Let_def)
qed

lemma uchar_wrap: "0 \<le> x \<Longrightarrow> x \<le> 255 \<Longrightarrow> uchar (x + 256) = x"
  by (simp add: uchar_def)

lemma adjust_count:
  fixes k i c F d :: int
  assumes "0 \<le> k" "k * i < c" "c \<le> F + 1" "F < i * \<bar>d\<bar>" "0 < i"
  shows "k < \<bar>d\<bar>"
proof (rule ccontr)
  assume "\<not> k < \<bar>d\<bar>"
  then have "\<bar>d\<bar> \<le> k" by simp
  then have "i * \<bar>d\<bar> \<le> i * k" using assms(5) by (intro mult_left_mono) auto
  moreover have "k * i = i * k" by simp
  ultimately show False using assms by linarith
qed

lemma chan_inv_step:
  assumes inv: "chan_inv F T P c ch"
    and c: "1 \<le> c" "c \<le> F" and F: "F < 32767"
    and r: "0 \<le> P" "P \<le> 255" "0 \<le> T" "T \<le> 255"
  shows "chan_inv F T P (c + 1) (chan_step c ch)"
proof (cases "T = P")
  case True
  then have "Time ch = 0" using inv by (simp add: chan_inv_def)
  then have "chan_step c ch = ch" using c by (simp add: chan_step_def)
  then show ?thesis using inv True by (simp add: chan_inv_def)
next
  case False
  define d where "d = T - P"
  define i where "i = timeInc F d"
  have d: "d \<noteq> 0" using False by (simp add: d_def)
  have F0: "0 < F" using c by simp
  have g: "F < i * \<bar>d\<bar>" "0 < i" "i \<le> F + 1"
    using timeInc_gt [OF F0 F d] by (simp_all add: i_def)
  from inv False have ti: "TimeInc ch = i" and inc: "Inc ch = (if d < 0 then 255 else 1)"
    and ex: "\<exists>k. 0 \<le> k \<and> Temp ch = P + sgn d * k \<and>
        Time ch = int16 ((k + 1) * i) \<and> k * i < c \<and> c \<le> (k + 1) * i"
    by (simp_all add: chan_inv_def d_def i_def)
  from ex obtain k where k: "0 \<le> k" "Temp ch = P + sgn d * k"
    "Time ch = int16 ((k + 1) * i)" "k * i < c" "c \<le> (k + 1) * i"
    by blast
  have kd: "k < \<bar>d\<bar>" using k(1) k(4) _ g(1) g(2) by (rule adjust_count) (use c in simp)
  have A0: "0 \<le> k * i" using k(1) g(2) by simp
  have e: "(k + 1) * i = k * i + i" by (simp add: algebra_simps)
  have e2: "(k + 1 + 1) * i = k * i + i + i" by (simp add: algebra_simps)
  show ?thesis
  proof (cases "c = Time ch")
    case True
    have "k * i + i \<le> 32767"
    proof (rule ccontr)
      assume "\<not> k * i + i \<le> 32767"
      then have "int16 (k * i + i) = k * i + i - 65536"
        using k(4) c F g(3) by (intro int16_high) linarith+
      then show False using True k(3) k(4) c F g(3) by (simp add: e)
    qed
    then have ceq: "c = k * i + i" using True k(3) A0 g(2) by (simp add: e int16_id)
    have temp: "uchar (Temp ch + Inc ch) = P + sgn d * (k + 1)"
    proof (cases "d < 0")
      case True
      then have "Temp ch + Inc ch = (P - k - 1) + 256" using k(2) inc by (simp add: sgn_if)
      then have "uchar (Temp ch + Inc ch) = uchar ((P - k - 1) + 256)" by (simp only:)
      moreover have "0 \<le> P - k - 1 \<and> P - k - 1 \<le> 255"
        using kd True r k(1) unfolding d_def by linarith
      ultimately have "uchar (Temp ch + Inc ch) = P - k - 1" by (simp only: uchar_wrap)
      then show ?thesis using True by (simp add: sgn_if)
    next
      case False
      then have "Temp ch + Inc ch = P + k + 1" using k(2) inc d by (simp add: sgn_if)
      moreover have "0 \<le> P + k + 1 \<and> P + k + 1 \<le> 255"
        using kd False r k(1) unfolding d_def by linarith
      ultimately have "uchar (Temp ch + Inc ch) = P + k + 1" by (simp add: uchar_id)
      then show ?thesis using False d by (simp add: sgn_if)
    qed
    have "(k + 1) * i + i = (k + 1 + 1) * i" by (simp add: algebra_simps)
    then have time: "int16 (Time ch + TimeInc ch) = int16 ((k + 1 + 1) * i)"
      by (simp only: k(3) ti int16_add_left)
    have t0: "0 \<le> k + 1" using k(1) by simp
    have t1: "Temp (chan_step c ch) = P + sgn d * (k + 1)"
      using True temp by (simp add: chan_step_def)
    have t2: "Time (chan_step c ch) = int16 ((k + 1 + 1) * i)"
      using True time by (simp add: chan_step_def)
    have t3: "(k + 1) * i < c + 1" using ceq e by linarith
    have t4: "c + 1 \<le> (k + 1 + 1) * i" using ceq e2 g(2) by linarith
    from t0 t1 t2 t3 t4
    have "0 \<le> k + 1 \<and> Temp (chan_step c ch) = P + sgn d * (k + 1) \<and>
        Time (chan_step c ch) = int16 ((k + 1 + 1) * i) \<and>
        (k + 1) * i < c + 1 \<and> c + 1 \<le> (k + 1 + 1) * i"
      by blast
    then have "\<exists>k'. 0 \<le> k' \<and> Temp (chan_step c ch) = P + sgn d * k' \<and>
        Time (chan_step c ch) = int16 ((k' + 1) * i) \<and>
        k' * i < c + 1 \<and> c + 1 \<le> (k' + 1) * i"
      by (rule exI)
    moreover have "TimeInc (chan_step c ch) = i" "Inc (chan_step c ch) = (if d < 0 then 255 else 1)"
      using ti inc by (simp_all add: chan_step_def)
    ultimately show ?thesis using False by (simp add: chan_inv_def d_def i_def)
  next
    case ne: False
    then have same: "chan_step c ch = ch" by (simp add: chan_step_def)
    have "c \<noteq> k * i + i"
    proof
      assume "c = k * i + i"
      then have "int16 ((k + 1) * i) = c" using c F by (simp add: e int16_id)
      then show False using ne k(3) by simp
    qed
    then have "c + 1 \<le> (k + 1) * i" using k(5) by (simp add: e)
    then have "0 \<le> k \<and> Temp ch = P + sgn d * k \<and> Time ch = int16 ((k + 1) * i) \<and>
        k * i < c + 1 \<and> c + 1 \<le> (k + 1) * i"
      using k by simp
    then have "\<exists>k'. 0 \<le> k' \<and> Temp ch = P + sgn d * k' \<and>
        Time ch = int16 ((k' + 1) * i) \<and> k' * i < c + 1 \<and> c + 1 \<le> (k' + 1) * i"
      by (rule exI)
    then show ?thesis using False ti inc by (simp add: chan_inv_def same d_def i_def)
  qed
qed

lemma chan_inv_bounds:
  assumes inv: "chan_inv F T P c ch"
    and c: "c \<le> F + 1" and F: "0 < F" "F < 32767"
  shows "min P T \<le> Temp ch \<and> Temp ch \<le> max P T \<and>
         (if T = P then Temp ch = P else \<bar>Temp ch - P\<bar> < \<bar>T - P\<bar>)"
proof (cases "T = P")
  case True
  then show ?thesis using inv by (simp add: chan_inv_def)
next
  case False
  define d where "d = T - P"
  define i where "i = timeInc F d"
  have d: "d \<noteq> 0" using False by (simp add: d_def)
  have g: "F < i * \<bar>d\<bar>" "0 < i" "i \<le> F + 1"
    using timeInc_gt [OF F d] by (simp_all add: i_def)
  from inv False have ex: "\<exists>k. 0 \<le> k \<and> Temp ch = P + sgn d * k \<and>
        Time ch = int16 ((k + 1) * i) \<and> k * i < c \<and> c \<le> (k + 1) * i"
    by (simp add: chan_inv_def d_def i_def)
  then obtain k where k: "0 \<le> k" "Temp ch = P + sgn d * k" "k * i < c"
    by blast
  have kd: "k < \<bar>d\<bar>" using k(1) k(3) c g(1) g(2) by (rule adjust_count)
  show ?thesis
  proof (cases "d < 0")
    case True
    then have "Temp ch = P - k" using k(2) by (simp add: sgn_if)
    then show ?thesis using k(1) kd True False unfolding d_def by (simp; linarith)
  next
    case dp: False
    then have "Temp ch = P + k" using k(2) d by (simp add: sgn_if)
    then show ?thesis using k(1) kd dp d False unfolding d_def by (simp; linarith)
  qed
qed

subsection \<open>The invariant along the fade loop\<close>

lemma target_of_eq: "target_of tab index col = 255 - uint (col (tab ! nat index))"
  by (simp add: target_of_def inverted_eq)

lemma target_of_range: "0 \<le> target_of tab index col \<and> target_of tab index col \<le> 255"
  by (simp add: target_of_def inverted_range)

lemma prev_of_range: "0 \<le> prev_of tab index col \<and> prev_of tab index col \<le> 255"
  by (simp add: prev_of_def inverted_range)

lemma fade_init_simps:
  "fadeCounter (fade_init tab index) = 1"
  "redc (fade_init tab index) =
     chan_init (sint (fadeTime (tab ! nat index))) (target_of tab index red) (prev_of tab index red)"
  "greenc (fade_init tab index) =
     chan_init (sint (fadeTime (tab ! nat index))) (target_of tab index green) (prev_of tab index green)"
  "bluec (fade_init tab index) =
     chan_init (sint (fadeTime (tab ! nat index))) (target_of tab index blue) (prev_of tab index blue)"
  by (simp_all add: fade_init_def Let_def)

lemma fade_init_record:
  "fade_init tab index =
     \<lparr>fadeCounter = 1,
      redc = chan_init (sint (fadeTime (tab ! nat index))) (target_of tab index red)
               (prev_of tab index red),
      greenc = chan_init (sint (fadeTime (tab ! nat index))) (target_of tab index green)
               (prev_of tab index green),
      bluec = chan_init (sint (fadeTime (tab ! nat index))) (target_of tab index blue)
               (prev_of tab index blue)\<rparr>"
  by (simp add: fade_init_def Let_def)

lemma fade_body_simps:
  "fadeCounter (fade_body s) = int16 (fadeCounter s + 1)"
  "redc (fade_body s) = chan_step (fadeCounter s) (redc s)"
  "greenc (fade_body s) = chan_step (fadeCounter s) (greenc s)"
  "bluec (fade_body s) = chan_step (fadeCounter s) (bluec s)"
  by (simp_all add: fade_body_def)

text \<open>The invariant of a channel along the iterations, for any of the three channels.\<close>

lemma fade_iter_chan_inv:
  assumes g: "\<And>s. g (fade_body s) = chan_step (fadeCounter s) (g s)"
    and F: "F < 32767"
    and r: "0 \<le> P" "P \<le> 255" "0 \<le> T" "T \<le> 255"
  shows "fade_iter F n s = Some s' \<Longrightarrow> 1 \<le> fadeCounter s \<Longrightarrow> fadeCounter s \<le> F + 1 \<Longrightarrow>
         chan_inv F T P (fadeCounter s) (g s) \<Longrightarrow>
         1 \<le> fadeCounter s' \<and> fadeCounter s' \<le> F + 1 \<and> chan_inv F T P (fadeCounter s') (g s')"
proof (induction n arbitrary: s)
  case 0
  then show ?case by simp
next
  case (Suc n)
  from Suc.prems(1) have le: "fadeCounter s \<le> F" and it: "fade_iter F n (fade_body s) = Some s'"
    by (simp_all split: if_splits)
  have c: "fadeCounter (fade_body s) = fadeCounter s + 1"
    using Suc.prems(2) le F by (simp add: fade_body_simps int16_id)
  have "chan_inv F T P (fadeCounter s + 1) (chan_step (fadeCounter s) (g s))"
    using Suc.prems(4) Suc.prems(2) le F r by (rule chan_inv_step)
  then have "chan_inv F T P (fadeCounter (fade_body s)) (g (fade_body s))"
    by (simp add: c g)
  moreover have "1 \<le> fadeCounter (fade_body s)" "fadeCounter (fade_body s) \<le> F + 1"
    using c le Suc.prems(2) by simp_all
  ultimately show ?case using it Suc.IH by blast
qed

lemma fade_iter_nonpos:
  "fade_iter F n s = Some s' \<Longrightarrow> F < fadeCounter s \<Longrightarrow> s' = s"
  by (cases n) simp_all

lemma chan_between:
  assumes g: "\<And>s. g (fade_body s) = chan_step (fadeCounter s) (g s)"
    and g0: "g (fade_init tab index) = chan_init F T P"
    and F: "F \<noteq> 32767" "F \<le> 32767"
    and r: "0 \<le> P" "P \<le> 255" "0 \<le> T" "T \<le> 255"
    and it: "fade_iter F n (fade_init tab index) = Some s"
  shows "min P T \<le> Temp (g s) \<and> Temp (g s) \<le> max P T \<and>
         (if T = P then Temp (g s) = P else \<bar>Temp (g s) - P\<bar> < \<bar>T - P\<bar>)"
proof (cases "0 < F")
  case True
  have F': "F < 32767" using F by simp
  have "chan_inv F T P (fadeCounter (fade_init tab index)) (g (fade_init tab index))"
    using True F' by (simp add: fade_init_simps g0 chan_inv_init)
  with fade_iter_chan_inv [OF g F' r it]
  have "fadeCounter s \<le> F + 1 \<and> chan_inv F T P (fadeCounter s) (g s)"
    using True by (simp add: fade_init_simps)
  then show ?thesis using chan_inv_bounds True F' by blast
next
  case False
  then have "s = fade_init tab index"
    using it by (intro fade_iter_nonpos [of F n]) (simp_all add: fade_init_simps)
  then show ?thesis by (simp add: g0 chan_init_def Let_def)
qed

lemma fade_loop_init:
  assumes "F = sint (fadeTime (tab ! nat index))" "F \<noteq> 32767"
  shows "fade_loop F (fade_init tab index) [] =
         Some ((fade_body ^^ nat F) (fade_init tab index), fade_events (nat F) (fade_init tab index))"
proof -
  have F: "F < 32767" using assms sint16_bounds [of "fadeTime (tab ! nat index)"] by simp
  show ?thesis
  proof (cases "0 \<le> F")
    case True
    then show ?thesis
      using fade_loop_run [of "nat F" F "fade_init tab index" "[]"] F
      by (simp add: fade_init_simps)
  next
    case False
    then show ?thesis by (subst fade_loop.simps) (simp add: fade_init_simps)
  qed
qed

lemma fade_iter_init:
  assumes "F = sint (fadeTime (tab ! nat index))" "F \<noteq> 32767"
  shows "fade_iter F (nat F) (fade_init tab index) = Some ((fade_body ^^ nat F) (fade_init tab index))"
proof -
  have F: "F < 32767" using assms sint16_bounds [of "fadeTime (tab ! nat index)"] by simp
  show ?thesis
    by (rule fade_iter_run) (use F in \<open>simp_all add: fade_init_simps\<close>)
qed

subsection \<open>One call of sendrgbElement\<close>

lemma hold_loop_0: "hold_loop 0 h = replicate (nat h) (Delay_ten_us 100)"
  by (simp add: hold_loop_eq)

lemma sendrgbElement_unfold:
  assumes "in_table tab index"
  shows "sendrgbElement tab index =
     (case fade_loop (sint (fadeTime (tab ! nat index))) (fade_init tab index) [] of
        None \<Rightarrow> None
      | Some (s, out) \<Rightarrow>
          Some (Inr ((if sint (fadeTime (tab ! nat index)) = 0
                      then set_leds (target_of tab index red) (target_of tab index green)
                             (target_of tab index blue)
                      else []) @ out @
                     set_leds (target_of tab index red) (target_of tab index green)
                       (target_of tab index blue) @
                     replicate (nat (sint (holdTime (tab ! nat index)))) (Delay_ten_us 100))))"
  unfolding sendrgbElement_def Let_def hold_loop_0
  by (simp only: assms not_True_eq_False if_False)

lemma sendrgbElement_run:
  assumes "in_table tab index" "sint (fadeTime (tab ! nat index)) \<noteq> 32767"
  shows "sendrgbElement tab index = Some (Inr (keyframe_events tab index))"
  unfolding sendrgbElement_unfold [OF assms(1)] fade_loop_init [OF refl assms(2)]
    keyframe_events_def Let_def
  by simp

lemma sendrgbElement_shape:
  assumes "in_table tab index" "sendrgbElement tab index = Some (Inr tr)"
  shows "\<exists>pre. tr = pre @ set_leds (target_of tab index red) (target_of tab index green)
            (target_of tab index blue) @
          replicate (nat (sint (holdTime (tab ! nat index)))) (Delay_ten_us 100)"
proof (cases "fade_loop (sint (fadeTime (tab ! nat index))) (fade_init tab index) []")
  case None
  then show ?thesis using assms(2) unfolding sendrgbElement_unfold [OF assms(1)] by simp
next
  case (Some p)
  obtain s out where p: "p = (s, out)" by (cases p)
  have "tr = ((if sint (fadeTime (tab ! nat index)) = 0
                      then set_leds (target_of tab index red) (target_of tab index green)
                             (target_of tab index blue)
                      else []) @ out) @
                     set_leds (target_of tab index red) (target_of tab index green)
                       (target_of tab index blue) @
                     replicate (nat (sint (holdTime (tab ! nat index)))) (Delay_ten_us 100)"
    using assms(2) unfolding sendrgbElement_unfold [OF assms(1)] Some p by simp
  then show ?thesis by (rule exI)
qed

subsection \<open>A fade time of 32767\<close>

lemma fade_loop_iter:
  assumes "fade_loop F s out = Some r"
  shows "\<exists>n. fade_iter F n s = Some (fst r) \<and> \<not> fadeCounter (fst r) \<le> F"
proof (rule fade_loop.raw_induct
    [where P = "\<lambda>F s out r. \<exists>n. fade_iter F n s = Some (fst r) \<and> \<not> fadeCounter (fst r) \<le> F",
      OF _ assms])
  fix f and F :: int and s :: fade_state and out :: "event list" and r :: "fade_state \<times> event list"
  assume IH: "\<And>F s out r. f F s out = Some r \<Longrightarrow>
      \<exists>n. fade_iter F n s = Some (fst r) \<and> \<not> fadeCounter (fst r) \<le> F"
    and body: "(if fadeCounter s \<le> F then f F (fade_body s) (out @ fade_out (fade_body s))
       else Some (s, out)) = Some r"
  show "\<exists>n. fade_iter F n s = Some (fst r) \<and> \<not> fadeCounter (fst r) \<le> F"
  proof (cases "fadeCounter s \<le> F")
    case True
    with body have "f F (fade_body s) (out @ fade_out (fade_body s)) = Some r" by simp
    from IH [OF this] obtain n where "fade_iter F n (fade_body s) = Some (fst r)"
      "\<not> fadeCounter (fst r) \<le> F" by blast
    with True have "fade_iter F (Suc n) s = Some (fst r) \<and> \<not> fadeCounter (fst r) \<le> F" by simp
    then show ?thesis by blast
  next
    case False
    with body have "r = (s, out)" by simp
    with False have "fade_iter F 0 s = Some (fst r) \<and> \<not> fadeCounter (fst r) \<le> F" by simp
    then show ?thesis by blast
  qed
qed

lemma fade_iter_counter_range:
  "fade_iter F n s = Some s' \<Longrightarrow> - 32768 \<le> fadeCounter s \<Longrightarrow> fadeCounter s \<le> 32767 \<Longrightarrow>
   - 32768 \<le> fadeCounter s' \<and> fadeCounter s' \<le> 32767"
proof (induction n arbitrary: s)
  case 0
  then show ?case by simp
next
  case (Suc n)
  from Suc.prems(1) have "fade_iter F n (fade_body s) = Some s'" by (simp split: if_splits)
  moreover have "- 32768 \<le> fadeCounter (fade_body s) \<and> fadeCounter (fade_body s) \<le> 32767"
    using int16_range [of "fadeCounter s + 1"] by (simp add: fade_body_simps)
  ultimately show ?case using Suc.IH by blast
qed

lemma fade_loop_diverges:
  assumes "- 32768 \<le> fadeCounter s" "fadeCounter s \<le> 32767"
  shows "fade_loop 32767 s out = None"
proof (cases "fade_loop 32767 s out")
  case None
  then show ?thesis .
next
  case (Some r)
  from fade_loop_iter [OF Some] obtain n where n: "fade_iter 32767 n s = Some (fst r)"
    "\<not> fadeCounter (fst r) \<le> 32767" by blast
  from fade_iter_counter_range [OF n(1) assms] n(2) show ?thesis by simp
qed

lemma sendrgbElement_diverges:
  assumes "in_table tab index" "sint (fadeTime (tab ! nat index)) = 32767"
  shows "sendrgbElement tab index = None"
proof -
  have "fade_loop 32767 (fade_init tab index) [] = None"
    by (rule fade_loop_diverges) (simp_all add: fade_init_simps)
  then show ?thesis unfolding sendrgbElement_unfold [OF assms(1)] assms(2) by simp
qed

subsection \<open>Delays, passes and the loops of main\<close>

lemma count_delays_append [simp]: "count_delays (xs @ ys) = count_delays xs + count_delays ys"
  by (simp add: count_delays_def)

lemma count_delays_Nil [simp]: "count_delays [] = 0"
  by (simp add: count_delays_def)

lemma count_delays_set_leds [simp]: "count_delays (set_leds r g b) = 0"
  by (simp add: count_delays_def set_leds_def)

lemma count_delays_replicate [simp]: "count_delays (replicate n (Delay_ten_us k)) = n"
  by (simp add: count_delays_def)

lemma count_delays_fade_out [simp]: "count_delays (fade_out s) = 1"
  by (simp add: fade_out_def) (simp add: count_delays_def)

lemma count_delays_fade_events [simp]: "count_delays (fade_events n s) = n"
  by (induction n arbitrary: s) simp_all

lemma count_delays_keyframe:
  "count_delays (keyframe_events tab index) =
     nat (sint (fadeTime (tab ! nat index))) + nat (sint (holdTime (tab ! nat index)))"
  by (simp add: keyframe_events_def Let_def)

lemma pass_events_Suc: "pass_events tab (Suc n) = pass_events tab n @ keyframe_events tab (int n)"
  by (simp add: pass_events_def)

lemma count_delays_pass:
  "n \<le> length tab \<Longrightarrow> count_delays (pass_events tab n) =
     sum_list (map (\<lambda>e. nat (sint (fadeTime e)) + nat (sint (holdTime e))) (take n tab))"
proof (induction n)
  case 0
  show ?case by (simp add: pass_events_def)
next
  case (Suc n)
  then have "take (Suc n) tab = take n tab @ [tab ! n]" by (simp add: take_Suc_conv_app_nth)
  with Suc show ?case by (simp add: pass_events_Suc count_delays_keyframe)
qed

lemma do_while_run:
  "k - i = d \<Longrightarrow> i < k \<Longrightarrow> k < length tab \<Longrightarrow> k \<le> 32767 \<Longrightarrow>
   (\<And>j. i \<le> j \<Longrightarrow> j < k \<Longrightarrow> sint (fadeTime (tab ! j)) \<noteq> 32767) \<Longrightarrow>
   (\<And>j. i < j \<Longrightarrow> j < k \<Longrightarrow> \<not> is_sentinel (tab ! j)) \<Longrightarrow>
   is_sentinel (tab ! k) \<Longrightarrow>
   do_while tab (int i) out =
     Some (Inr (int k, out @ concat (map (\<lambda>j. keyframe_events tab (int j)) [i..<k])))"
proof (induction d arbitrary: i out)
  case 0
  then show ?case by simp
next
  case (Suc d)
  have it: "in_table tab (int i)" using Suc.prems by (simp add: in_table_def)
  have send: "sendrgbElement tab (int i) = Some (Inr (keyframe_events tab (int i)))"
    using it Suc.prems(5) [of i] Suc.prems(2) by (intro sendrgbElement_run) simp_all
  have nx: "int16 (int i + 1) = int (Suc i)" using Suc.prems by (simp add: int16_id)
  have it': "in_table tab (int (Suc i))" using Suc.prems by (simp add: in_table_def)
  show ?case
  proof (cases "Suc i = k")
    case True
    then have "[i..<k] = [i]" by auto
    then show ?thesis using True Suc.prems(7) it'
      by (subst do_while.simps) (simp add: send nx del: of_nat_Suc)
  next
    case False
    then have lt: "Suc i < k" using Suc.prems by simp
    have ns: "\<not> is_sentinel (tab ! Suc i)" using Suc.prems(6) [of "Suc i"] lt by simp
    have "do_while tab (int (Suc i)) (out @ keyframe_events tab (int i)) =
      Some (Inr (int k, (out @ keyframe_events tab (int i)) @
        concat (map (\<lambda>j. keyframe_events tab (int j)) [Suc i..<k])))"
      using Suc.prems lt by (intro Suc.IH) simp_all
    moreover have "[i..<k] = i # [Suc i..<k]" using Suc.prems by (simp add: upt_conv_Cons)
    ultimately show ?thesis using ns it'
      by (subst do_while.simps) (simp add: send nx del: of_nat_Suc)
  qed
qed

lemma playable_nth:
  assumes "playable tab"
  shows "is_sentinel (tab ! (length tab - 1))"
    and "\<And>j. j < length tab - 1 \<Longrightarrow> \<not> is_sentinel (tab ! j) \<and> sint (fadeTime (tab ! j)) \<noteq> 32767"
proof -
  have ne: "tab \<noteq> []" using assms by (auto simp: playable_def)
  show "is_sentinel (tab ! (length tab - 1))"
    using assms ne by (simp add: playable_def last_conv_nth)
  fix j assume j: "j < length tab - 1"
  have "list_all (\<lambda>e. \<not> is_sentinel e \<and> sint (fadeTime e) \<noteq> 32767) (butlast tab)"
    using assms by (simp add: playable_def)
  then have "\<not> is_sentinel (butlast tab ! j) \<and> sint (fadeTime (butlast tab ! j)) \<noteq> 32767"
    using j by (simp add: list_all_length)
  then show "\<not> is_sentinel (tab ! j) \<and> sint (fadeTime (tab ! j)) \<noteq> 32767"
    using j by (simp add: nth_butlast)
qed

lemma do_while_playable:
  assumes "playable tab"
  shows "do_while tab 0 [] =
         Some (Inr (int (length tab - 1), pass_events tab (length tab - 1)))"
proof -
  have l: "1 < length tab" "length tab \<le> 32767" using assms by (simp_all add: playable_def)
  have "do_while tab (int 0) [] =
     Some (Inr (int (length tab - 1),
       [] @ concat (map (\<lambda>j. keyframe_events tab (int j)) [0..<length tab - 1])))"
    using l playable_nth [OF assms] by (intro do_while_run [OF refl]) simp_all
  then show ?thesis by (simp add: pass_events_def)
qed


lemma main_for_next:
  assumes "do_while tab 0 [] = Some (Inr (k, tr))" "count < 360"
  shows "main_for tab count 0 out = main_for tab (count + 1) 0 (out @ tr)"
  using assms by (subst main_for.simps) simp

subsection \<open>The table of the firmware\<close>

lemma length_lightTab: "length lightTab = 99"
  by (simp add: lightTab_def)

lemma sentinels_lightTab: "filter is_sentinel lightTab = [elem 0 0 0 0 0]"
  by (simp add: lightTab_def is_sentinel_def elem_def)


lemma playable_lightTab: "playable lightTab"
  by (simp add: playable_def lightTab_def is_sentinel_def elem_def)

lemma nonneg_lightTab: "nonneg_times lightTab"
  by (simp add: nonneg_times_def lightTab_def elem_def)

lemma total_lightTab: "total_ticks (butlast lightTab) = 366000"
  by (simp add: total_ticks_def lightTab_def elem_def)

lemma fade_total_lightTab:
  "sum_list (map (\<lambda>e. sint (fadeTime e)) (butlast lightTab)) = 227500"
  "sum_list (map (\<lambda>e. sint (holdTime e)) (butlast lightTab)) = 138500"
  by (simp_all add: lightTab_def elem_def)

subsection \<open>Iterations that only advance the counter\<close>







subsection \<open>Keyframes with fade time 0\<close>

lemma last_write_append:
  "last_write r (xs @ ys) =
     (case last_write r ys of Some w \<Rightarrow> Some w | None \<Rightarrow> last_write r xs)"
  by (induction xs rule: last_write.induct) (simp_all split: option.splits)

lemma last_write_delays: "last_write r (replicate n (Delay_ten_us k)) = None"
  by (induction n) simp_all

lemma last_write_set_leds:
  "last_write OCR1A (set_leds r g b) = Some r"
  "last_write OCR1B (set_leds r g b) = Some b"
  "last_write OCR0A (set_leds r g b) = Some g"
  by (simp_all add: set_leds_def)

lemma last_write_final:
  "last_write OCR1A (pre @ set_leds r g b @ replicate n (Delay_ten_us k)) = Some r"
  "last_write OCR1B (pre @ set_leds r g b @ replicate n (Delay_ten_us k)) = Some b"
  "last_write OCR0A (pre @ set_leds r g b @ replicate n (Delay_ten_us k)) = Some g"
  by (simp_all add: last_write_append last_write_delays last_write_set_leds)

lemma count_writes_simps:
  "count_writes r (xs @ ys) = count_writes r xs + count_writes r ys"
  "count_writes r (replicate n (Delay_ten_us k)) = 0"
  "count_writes r (set_leds a b c) = 1"
  by (simp_all add: count_writes_def set_leds_def) (cases r; simp)

lemma fade_loop_exit: "\<not> fadeCounter s \<le> F \<Longrightarrow> fade_loop F s out = Some (s, out)"
  by (subst fade_loop.simps) simp

lemma blink_run:
  assumes "in_table tab index" "sint (fadeTime (tab ! nat index)) = 0"
  shows "sendrgbElement tab index =
       Some (Inr (set_leds (target_of tab index red) (target_of tab index green)
                    (target_of tab index blue) @
                  set_leds (target_of tab index red) (target_of tab index green)
                    (target_of tab index blue) @
                  replicate (nat (sint (holdTime (tab ! nat index)))) (Delay_ten_us 100)))"
proof -
  have "fade_loop 0 (fade_init tab index) [] = Some (fade_init tab index, [])"
    by (rule fade_loop_exit) (simp add: fade_init_simps)
  then show ?thesis
    unfolding sendrgbElement_unfold [OF assms(1)] assms(2) by simp
qed

text \<open>
  Claim C1, amended. For a keyframe whose fade time is 0 the fade loop runs no iteration:
  it returns its initial state without an event, and there is no first iteration. The
  call of \<open>sendrgbElement\<close> writes the target values to the three registers in the
  \<open>FadeTime == 0\<close> branch and once more after the loop, with no delay in between, and
  then holds. So each register is written exactly two times with its target value, not
  once.
\<close>

theorem blink_keyframe:
  assumes "in_table tab index" "sint (fadeTime (tab ! nat index)) = 0"
  shows "fade_loop 0 (fade_init tab index) [] = Some (fade_init tab index, []) \<and>
     fade_iter 0 (Suc 0) (fade_init tab index) = None \<and>
     sendrgbElement tab index =
       Some (Inr (set_leds (target_of tab index red) (target_of tab index green)
                    (target_of tab index blue) @
                  set_leds (target_of tab index red) (target_of tab index green)
                    (target_of tab index blue) @
                  replicate (nat (sint (holdTime (tab ! nat index)))) (Delay_ten_us 100))) \<and>
     count_writes r (set_leds (target_of tab index red) (target_of tab index green)
                    (target_of tab index blue) @
                  set_leds (target_of tab index red) (target_of tab index green)
                    (target_of tab index blue) @
                  replicate (nat (sint (holdTime (tab ! nat index)))) (Delay_ten_us 100)) = 2"
proof -
  have "fade_loop 0 (fade_init tab index) [] = Some (fade_init tab index, [])"
    by (rule fade_loop_exit) (simp add: fade_init_simps)
  moreover have "fade_iter 0 (Suc 0) (fade_init tab index) = None"
    by (simp add: fade_init_simps)
  ultimately show ?thesis
    using blink_run [OF assms] by (simp add: count_writes_simps)
qed

lemma lightTab_49: "lightTab ! 49 = elem 0 2500 10 10 10"
  by (simp add: lightTab_def)

lemma lightTab_0: "lightTab ! 0 = elem 0 500 0 0 0"
  by (simp add: lightTab_def)

theorem blink_keyframe_witness:
  "in_table lightTab 49 \<and> sint (fadeTime (lightTab ! nat 49)) = 0 \<and>
   sendrgbElement lightTab 49 =
     Some (Inr (set_leds 245 245 245 @ set_leds 245 245 245 @ replicate 2500 (Delay_ten_us 100)))"
proof -
  have a: "in_table lightTab 49" by (simp add: in_table_def length_lightTab)
  have b: "sint (fadeTime (lightTab ! nat 49)) = 0" by (simp add: lightTab_49 elem_def)
  have t: "target_of lightTab 49 red = 245" "target_of lightTab 49 green = 245"
    "target_of lightTab 49 blue = 245" "nat (sint (holdTime (lightTab ! nat 49))) = 2500"
    by (simp_all add: target_of_def lightTab_49 elem_def inverted_def uchar_def)
  show ?thesis using blink_keyframe [OF a b, of OCR1A] a b by (simp only: t)
qed

theorem blink_keyframe_counterexample:
  "sint (fadeTime (lightTab ! nat 0)) = 0 \<and>
   sendrgbElement lightTab 0 =
     Some (Inr (set_leds 255 255 255 @ set_leds 255 255 255 @ replicate 500 (Delay_ten_us 100))) \<and>
   count_writes OCR1A
     (set_leds 255 255 255 @ set_leds 255 255 255 @ replicate 500 (Delay_ten_us 100)) \<noteq> 1"
proof -
  have a: "in_table lightTab 0" by (simp add: in_table_def length_lightTab)
  have b: "sint (fadeTime (lightTab ! nat 0)) = 0" by (simp add: lightTab_0 elem_def)
  have t: "target_of lightTab 0 red = 255" "target_of lightTab 0 green = 255"
    "target_of lightTab 0 blue = 255" "nat (sint (holdTime (lightTab ! nat 0))) = 500"
    by (simp_all add: target_of_def lightTab_0 elem_def inverted_def uchar_def)
  show ?thesis using blink_run [OF a b] b by (simp only: t) (simp add: count_writes_simps)
qed

subsection \<open>Step intervals and final values\<close>

lemma chan_init_simps:
  "Temp (chan_init F T P) = P"
  "Time (chan_init F T P) = timeInc F (T - P)"
  "TimeInc (chan_init F T P) = timeInc F (T - P)"
  by (simp_all add: chan_init_def Let_def)

lemma timeInc_claim:
  assumes "0 < F" "F \<le> 32767" "d \<noteq> 0"
  shows "timeInc F d = int16 (\<bar>F sdiv d\<bar> + 1) \<and>
         (F = 32767 \<and> \<bar>d\<bar> = 1 \<or> timeInc F d = \<bar>F sdiv d\<bar> + 1)"
proof (cases "F = 32767 \<and> \<bar>d\<bar> = 1")
  case True
  then show ?thesis using timeInc_wrap [OF assms] by simp
next
  case False
  then have "timeInc F d = F div \<bar>d\<bar> + 1" using assms by (intro timeInc_exact) auto
  then show ?thesis using timeInc_wrap [OF assms] assms by (simp add: sdiv_pos)
qed

text \<open>
  For a keyframe with a positive fade time and a channel whose delta is not 0, the step
  interval (\<open>redTimeInc\<close>, \<open>greenTimeInc\<close>, \<open>blueTimeInc\<close>) is the absolute value of the
  truncating division of the fade time by the delta, plus 1, taken in 16 bits. Only at
  fade time 32767 with a delta of 1 or - 1 does the sum leave the range of an \<open>int\<close>. For
  fade time 500, previous value 0 and target 255 the step interval is 2.
\<close>

lemma step_interval:
  fixes tab :: "rgbElement list" and index :: int
  defines "F \<equiv> sint (fadeTime (tab ! nat index))"
  defines "d \<equiv> \<lambda>col. target_of tab index col - prev_of tab index col"
  assumes "in_table tab index" "0 < F"
  shows
    "(d red = 0 \<or>
        TimeInc (redc (fade_init tab index)) = int16 (\<bar>F sdiv d red\<bar> + 1) \<and>
        (F = 32767 \<and> \<bar>d red\<bar> = 1 \<or>
         TimeInc (redc (fade_init tab index)) = \<bar>F sdiv d red\<bar> + 1)) \<and>
     (d green = 0 \<or>
        TimeInc (greenc (fade_init tab index)) = int16 (\<bar>F sdiv d green\<bar> + 1) \<and>
        (F = 32767 \<and> \<bar>d green\<bar> = 1 \<or>
         TimeInc (greenc (fade_init tab index)) = \<bar>F sdiv d green\<bar> + 1)) \<and>
     (d blue = 0 \<or>
        TimeInc (bluec (fade_init tab index)) = int16 (\<bar>F sdiv d blue\<bar> + 1) \<and>
        (F = 32767 \<and> \<bar>d blue\<bar> = 1 \<or>
         TimeInc (bluec (fade_init tab index)) = \<bar>F sdiv d blue\<bar> + 1)) \<and>
     TimeInc (chan_init 500 255 0) = 2"
proof -
  have F: "0 < sint (fadeTime (tab ! nat index))" "sint (fadeTime (tab ! nat index)) \<le> 32767"
    using assms(4) sint16_bounds [of "fadeTime (tab ! nat index)"] by (simp_all add: F_def)
  note k = timeInc_claim [OF F]
  have e: "timeInc 500 (255 - 0) = 2"
    by (simp add: timeInc_def Let_def signed_divide_int_def int16_def)
  show ?thesis
    unfolding F_def d_def fade_init_simps chan_init_simps
    using k [of "target_of tab index red - prev_of tab index red"]
      k [of "target_of tab index green - prev_of tab index green"]
      k [of "target_of tab index blue - prev_of tab index blue"] e
    by blast
qed

lemma chan_init_500:
  "chan_init 500 255 0 = \<lparr>Temp = 0, Time = 2, TimeInc = 2, Inc = 1\<rparr>"
  "chan_init 500 0 255 = \<lparr>Temp = 255, Time = 2, TimeInc = 2, Inc = 255\<rparr>"
  "chan_init 500 255 255 = \<lparr>Temp = 255, Time = 0, TimeInc = 0, Inc = 1\<rparr>"
  "chan_init 500 0 0 = \<lparr>Temp = 0, Time = 0, TimeInc = 0, Inc = 1\<rparr>"
  by (simp_all add: chan_init_def timeInc_def Let_def signed_divide_int_def int16_def uchar_def)

lemma step_interval_example:
  "in_table [elem 500 500 0 255 255] 0 \<and>
   0 < sint (fadeTime ([elem 500 500 0 255 255] ! nat 0)) \<and>
   prev_of [elem 500 500 0 255 255] 0 red = 0 \<and>
   target_of [elem 500 500 0 255 255] 0 red = 255 \<and>
   TimeInc (redc (fade_init [elem 500 500 0 255 255] 0)) = 2 \<and>
   \<bar>(500::int) sdiv 255\<bar> + 1 = 2 \<and>
   map_option (\<lambda>s. Temp (redc s)) (fade_iter 500 4 (fade_init [elem 500 500 0 255 255] 0)) =
     Some 2"
proof -
  let ?t = "[elem 500 500 0 255 255]"
  have a: "in_table ?t 0" by (simp add: in_table_def)
  have b: "0 < sint (fadeTime (?t ! nat 0))" by (simp add: elem_def)
  have c: "prev_of ?t 0 red = 0" "target_of ?t 0 red = 255" "sint (fadeTime (?t ! nat 0)) = 500"
    by (simp_all add: prev_of_def target_of_def inverted_def uchar_def elem_def)
  have d: "\<bar>(500::int) sdiv 255\<bar> + 1 = 2" by (simp add: signed_divide_int_def)
  have v: "target_of ?t 0 green = 0" "prev_of ?t 0 green = 0"
    "target_of ?t 0 blue = 0" "prev_of ?t 0 blue = 0"
    by (simp_all add: prev_of_def target_of_def inverted_def uchar_def elem_def)
  have i: "fade_init ?t 0 =
     \<lparr>fadeCounter = 1,
      redc = \<lparr>Temp = 0, Time = 2, TimeInc = 2, Inc = 1\<rparr>,
      greenc = \<lparr>Temp = 0, Time = 0, TimeInc = 0, Inc = 1\<rparr>,
      bluec = \<lparr>Temp = 0, Time = 0, TimeInc = 0, Inc = 1\<rparr>\<rparr>"
    unfolding fade_init_record c v chan_init_500 by (rule refl)
  have e: "map_option (\<lambda>s. Temp (redc s)) (fade_iter 500 4 (fade_init ?t 0)) = Some 2"
    unfolding i
    by (simp add: eval_nat_numeral fade_body_def chan_step_def int16_def uchar_def)
  show ?thesis using step_interval [OF a b] a b e
    by (simp only: c) (simp add: d)
qed


text \<open>
  Claim C3. For every keyframe of the table, a call of \<open>sendrgbElement\<close> that returns has
  emitted, after whatever the fade loop wrote, the three target values and then only the
  delays of the hold loop: the last value written to each register is the target of its
  channel, whatever the step intervals were. The call does return, except when the fade
  time is 32767, where the fade loop never ends.
\<close>

theorem final_values:
  assumes "in_table tab index"
  shows
    "(if sint (fadeTime (tab ! nat index)) = 32767
      then sendrgbElement tab index = None
      else \<exists>tr. sendrgbElement tab index = Some (Inr tr)) \<and>
     (\<forall>tr. sendrgbElement tab index = Some (Inr tr) \<longrightarrow>
        (\<exists>pre. tr = pre @
           set_leds (target_of tab index red) (target_of tab index green)
             (target_of tab index blue) @
           replicate (nat (sint (holdTime (tab ! nat index)))) (Delay_ten_us 100)) \<and>
        last_write OCR1A tr = Some (target_of tab index red) \<and>
        last_write OCR1B tr = Some (target_of tab index blue) \<and>
        last_write OCR0A tr = Some (target_of tab index green))"
proof (intro conjI allI impI)
  show "if sint (fadeTime (tab ! nat index)) = 32767
      then sendrgbElement tab index = None
      else \<exists>tr. sendrgbElement tab index = Some (Inr tr)"
    using sendrgbElement_run [OF assms] sendrgbElement_diverges [OF assms] by simp
next
  fix tr assume tr: "sendrgbElement tab index = Some (Inr tr)"
  from sendrgbElement_shape [OF assms tr]
  obtain pre where pre: "tr = pre @
           set_leds (target_of tab index red) (target_of tab index green)
             (target_of tab index blue) @
           replicate (nat (sint (holdTime (tab ! nat index)))) (Delay_ten_us 100)"
    by blast
  then show "\<exists>pre. tr = pre @
           set_leds (target_of tab index red) (target_of tab index green)
             (target_of tab index blue) @
           replicate (nat (sint (holdTime (tab ! nat index)))) (Delay_ten_us 100)"
    by (rule exI)
  show "last_write OCR1A tr = Some (target_of tab index red)"
    unfolding pre by (rule last_write_final)
  show "last_write OCR1B tr = Some (target_of tab index blue)"
    unfolding pre by (rule last_write_final)
  show "last_write OCR0A tr = Some (target_of tab index green)"
    unfolding pre by (rule last_write_final)
qed

lemma lightTab_3: "lightTab ! 3 = elem 500 500 0 0 255"
  by (simp add: lightTab_def)

theorem final_values_witness:
  "in_table lightTab 3 \<and> sint (fadeTime (lightTab ! nat 3)) = 500 \<and>
   (\<exists>tr. sendrgbElement lightTab 3 = Some (Inr tr) \<and>
      last_write OCR1A tr = Some 255 \<and> last_write OCR1B tr = Some 0 \<and>
      last_write OCR0A tr = Some 255)"
proof -
  have a: "in_table lightTab 3" by (simp add: in_table_def length_lightTab)
  have b: "sint (fadeTime (lightTab ! nat 3)) = 500" by (simp add: lightTab_3 elem_def)
  have t: "target_of lightTab 3 red = 255" "target_of lightTab 3 green = 255"
    "target_of lightTab 3 blue = 0"
    by (simp_all add: target_of_def lightTab_3 elem_def inverted_def uchar_def)
  have "\<exists>tr. sendrgbElement lightTab 3 = Some (Inr tr)"
    using final_values [OF a, THEN conjunct1] b by simp
  then obtain tr where tr: "sendrgbElement lightTab 3 = Some (Inr tr)" by blast
  have "last_write OCR1A tr = Some 255 \<and> last_write OCR1B tr = Some 0 \<and>
      last_write OCR0A tr = Some 255"
    using final_values [OF a, THEN conjunct2, rule_format, OF tr] by (simp only: t)
  with tr a b show ?thesis by blast
qed

subsection \<open>Polarity\<close>

lemma prev_of_eq:
  "prev_of tab index col =
     (if index = 0 then 0 else 255 - uint (col (tab ! nat (index - 1))))"
  by (simp add: prev_of_def inverted_eq)

lemma keyframe_events_raw:
  "keyframe_events tab index =
     (if sint (fadeTime (tab ! nat index)) = 0
      then [Write OCR1A (target_of tab index red), Write OCR1B (target_of tab index blue),
            Write OCR0A (target_of tab index green)]
      else []) @
     fade_events (nat (sint (fadeTime (tab ! nat index))))
       \<lparr>fadeCounter = 1,
        redc = chan_init (sint (fadeTime (tab ! nat index))) (target_of tab index red)
                 (prev_of tab index red),
        greenc = chan_init (sint (fadeTime (tab ! nat index))) (target_of tab index green)
                 (prev_of tab index green),
        bluec = chan_init (sint (fadeTime (tab ! nat index))) (target_of tab index blue)
                 (prev_of tab index blue)\<rparr> @
     [Write OCR1A (target_of tab index red), Write OCR1B (target_of tab index blue),
      Write OCR0A (target_of tab index green)] @
     replicate (nat (sint (holdTime (tab ! nat index)))) (Delay_ten_us 100)"
  unfolding keyframe_events_def Let_def fade_init_record set_leds_def by simp

text \<open>
  Claim C10. \<open>sendrgbElement\<close> itself inverts the polarity. Its events are those of a fade
  that starts at the previous values, 255 minus the intensities of the entry at
  \<open>index - 1\<close> read from the table, or 0 when \<open>index\<close> is 0, runs towards the targets,
  255 minus the intensities of the entry at \<open>index\<close>, and ends with the writes of these
  targets to the registers. None of these subtractions leaves the range of a byte. The
  call returns these events for every fade time but 32767, where it does not return.
\<close>

theorem polarity_inversion:
  fixes tab :: "rgbElement list" and index :: int
  defines "F \<equiv> sint (fadeTime (tab ! nat index))"
  defines "T \<equiv> \<lambda>col. 255 - uint (col (tab ! nat index))"
  defines "P \<equiv> \<lambda>col. if index = 0 then 0 else 255 - uint (col (tab ! nat (index - 1)))"
  assumes "in_table tab index"
  shows
    "sendrgbElement tab index =
       (if F = 32767 then None
        else Some (Inr (
          (if F = 0 then [Write OCR1A (T red), Write OCR1B (T blue), Write OCR0A (T green)]
           else []) @
          fade_events (nat F)
            \<lparr>fadeCounter = 1,
             redc = chan_init F (T red) (P red),
             greenc = chan_init F (T green) (P green),
             bluec = chan_init F (T blue) (P blue)\<rparr> @
          [Write OCR1A (T red), Write OCR1B (T blue), Write OCR0A (T green)] @
          replicate (nat (sint (holdTime (tab ! nat index)))) (Delay_ten_us 100)))) \<and>
     Temp (chan_init F (T col) (P col)) = P col \<and>
     0 \<le> T col \<and> T col \<le> 255 \<and> 0 \<le> P col \<and> P col \<le> 255 \<and>
     target_of tab index col = T col \<and> prev_of tab index col = P col"
proof -
  have t: "\<And>c. target_of tab index c = T c" by (simp add: T_def target_of_eq)
  have p: "\<And>c. prev_of tab index c = P c" by (simp add: P_def prev_of_eq)
  have "sendrgbElement tab index =
       (if F = 32767 then None else Some (Inr (keyframe_events tab index)))"
    using sendrgbElement_run [OF assms(4)] sendrgbElement_diverges [OF assms(4)]
    by (simp add: F_def)
  then have 1: "sendrgbElement tab index =
       (if F = 32767 then None
        else Some (Inr (
          (if F = 0 then [Write OCR1A (T red), Write OCR1B (T blue), Write OCR0A (T green)]
           else []) @
          fade_events (nat F)
            \<lparr>fadeCounter = 1,
             redc = chan_init F (T red) (P red),
             greenc = chan_init F (T green) (P green),
             bluec = chan_init F (T blue) (P blue)\<rparr> @
          [Write OCR1A (T red), Write OCR1B (T blue), Write OCR0A (T green)] @
          replicate (nat (sint (holdTime (tab ! nat index)))) (Delay_ten_us 100))))"
    unfolding keyframe_events_raw t p F_def [symmetric] .
  have 2: "Temp (chan_init F (T col) (P col)) = P col" by (simp add: chan_init_simps)
  have 3: "0 \<le> T col \<and> T col \<le> 255 \<and> 0 \<le> P col \<and> P col \<le> 255"
    using target_of_range [of tab index col] prev_of_range [of tab index col]
    by (simp only: t p)
  show ?thesis using 1 2 3 t p by blast
qed

theorem polarity_inversion_witness:
  "in_table [elem 0 1 10 20 30, elem 2 1 12 20 31, elem 0 0 0 0 0] 1 \<and>
   sendrgbElement [elem 0 1 10 20 30, elem 2 1 12 20 31, elem 0 0 0 0 0] 1 =
     Some (Inr [Write OCR1A 245, Write OCR1B 225, Write OCR0A 235, Delay_ten_us 100,
                Write OCR1A 244, Write OCR1B 225, Write OCR0A 235, Delay_ten_us 100,
                Write OCR1A 243, Write OCR1B 224, Write OCR0A 235, Delay_ten_us 100]) \<and>
   in_table [elem 1 0 254 255 255, elem 0 0 0 0 0] 0 \<and>
   sendrgbElement [elem 1 0 254 255 255, elem 0 0 0 0 0] 0 =
     Some (Inr [Write OCR1A 0, Write OCR1B 0, Write OCR0A 0, Delay_ten_us 100,
                Write OCR1A 1, Write OCR1B 0, Write OCR0A 0])"
proof -
  let ?a = "[elem 0 1 10 20 30, elem 2 1 12 20 31, elem 0 0 0 0 0]"
  let ?b = "[elem 1 0 254 255 255, elem 0 0 0 0 0]"
  have ia: "in_table ?a 1" and ib: "in_table ?b 0" by (simp_all add: in_table_def)
  have na: "?a ! nat 1 = elem 2 1 12 20 31" "?a ! nat (1 - 1) = elem 0 1 10 20 30"
    "?b ! nat 0 = elem 1 0 254 255 255"
    by simp_all
  have ci: "chan_init 2 243 245 = \<lparr>Temp = 245, Time = 2, TimeInc = 2, Inc = 255\<rparr>"
    "chan_init 2 235 235 = \<lparr>Temp = 235, Time = 0, TimeInc = 0, Inc = 1\<rparr>"
    "chan_init 2 224 225 = \<lparr>Temp = 225, Time = 3, TimeInc = 3, Inc = 255\<rparr>"
    "chan_init 1 1 0 = \<lparr>Temp = 0, Time = 2, TimeInc = 2, Inc = 1\<rparr>"
    "chan_init 1 0 0 = \<lparr>Temp = 0, Time = 0, TimeInc = 0, Inc = 1\<rparr>"
    by (simp_all add: chan_init_def timeInc_def Let_def signed_divide_int_def int16_def
        uchar_def)
  have fa: "fade_events 2
      \<lparr>fadeCounter = 1,
       redc = \<lparr>Temp = 245, Time = 2, TimeInc = 2, Inc = 255\<rparr>,
       greenc = \<lparr>Temp = 235, Time = 0, TimeInc = 0, Inc = 1\<rparr>,
       bluec = \<lparr>Temp = 225, Time = 3, TimeInc = 3, Inc = 255\<rparr>\<rparr> =
     [Write OCR1A 245, Write OCR1B 225, Write OCR0A 235, Delay_ten_us 100,
      Write OCR1A 244, Write OCR1B 225, Write OCR0A 235, Delay_ten_us 100]"
    by (simp add: eval_nat_numeral fade_body_def fade_out_def set_leds_def chan_step_def
        int16_def uchar_def)
  have a: "sendrgbElement ?a 1 =
     Some (Inr [Write OCR1A 245, Write OCR1B 225, Write OCR0A 235, Delay_ten_us 100,
                Write OCR1A 244, Write OCR1B 225, Write OCR0A 235, Delay_ten_us 100,
                Write OCR1A 243, Write OCR1B 224, Write OCR0A 235, Delay_ten_us 100])"
    using polarity_inversion [OF ia, of red, THEN conjunct1]
    unfolding na by (simp add: elem_def ci fa)
  have b: "sendrgbElement ?b 0 =
     Some (Inr [Write OCR1A 0, Write OCR1B 0, Write OCR0A 0, Delay_ten_us 100,
                Write OCR1A 1, Write OCR1B 0, Write OCR0A 0])"
    using polarity_inversion [OF ib, of red, THEN conjunct1]
    unfolding na
    by (simp add: elem_def ci fade_body_def fade_out_def set_leds_def chan_step_def
        int16_def uchar_def)
  show ?thesis using ia ib a b by blast
qed

subsection \<open>Running values during the fade\<close>

lemma chan_between_red:
  assumes "sint (fadeTime (tab ! nat index)) \<noteq> 32767"
    and "fade_iter (sint (fadeTime (tab ! nat index))) n (fade_init tab index) = Some s"
  shows "min (prev_of tab index red) (target_of tab index red) \<le> Temp (redc s) \<and>
         Temp (redc s) \<le> max (prev_of tab index red) (target_of tab index red) \<and>
         (if target_of tab index red = prev_of tab index red
          then Temp (redc s) = prev_of tab index red
          else \<bar>Temp (redc s) - prev_of tab index red\<bar>
                 < \<bar>target_of tab index red - prev_of tab index red\<bar>)"
  using sint16_bounds [of "fadeTime (tab ! nat index)"] prev_of_range [of tab index red]
    target_of_range [of tab index red] assms
  by (intro chan_between [of redc tab index]) (simp_all add: fade_body_simps fade_init_simps)

lemma chan_between_green:
  assumes "sint (fadeTime (tab ! nat index)) \<noteq> 32767"
    and "fade_iter (sint (fadeTime (tab ! nat index))) n (fade_init tab index) = Some s"
  shows "min (prev_of tab index green) (target_of tab index green) \<le> Temp (greenc s) \<and>
         Temp (greenc s) \<le> max (prev_of tab index green) (target_of tab index green) \<and>
         (if target_of tab index green = prev_of tab index green
          then Temp (greenc s) = prev_of tab index green
          else \<bar>Temp (greenc s) - prev_of tab index green\<bar>
                 < \<bar>target_of tab index green - prev_of tab index green\<bar>)"
  using sint16_bounds [of "fadeTime (tab ! nat index)"] prev_of_range [of tab index green]
    target_of_range [of tab index green] assms
  by (intro chan_between [of greenc tab index]) (simp_all add: fade_body_simps fade_init_simps)

lemma chan_between_blue:
  assumes "sint (fadeTime (tab ! nat index)) \<noteq> 32767"
    and "fade_iter (sint (fadeTime (tab ! nat index))) n (fade_init tab index) = Some s"
  shows "min (prev_of tab index blue) (target_of tab index blue) \<le> Temp (bluec s) \<and>
         Temp (bluec s) \<le> max (prev_of tab index blue) (target_of tab index blue) \<and>
         (if target_of tab index blue = prev_of tab index blue
          then Temp (bluec s) = prev_of tab index blue
          else \<bar>Temp (bluec s) - prev_of tab index blue\<bar>
                 < \<bar>target_of tab index blue - prev_of tab index blue\<bar>)"
  using sint16_bounds [of "fadeTime (tab ! nat index)"] prev_of_range [of tab index blue]
    target_of_range [of tab index blue] assms
  by (intro chan_between [of bluec tab index]) (simp_all add: fade_body_simps fade_init_simps)

text \<open>
  For a keyframe whose fade time is not 32767, a channel whose target equals its previous
  value (delta 0) has that value after any number of iterations of the fade loop.
\<close>

lemma constant_channel:
  assumes "in_table tab index"
    and "sint (fadeTime (tab ! nat index)) \<noteq> 32767"
    and "fade_iter (sint (fadeTime (tab ! nat index))) n (fade_init tab index) = Some s"
  shows
    "(target_of tab index red \<noteq> prev_of tab index red \<or>
        Temp (redc s) = prev_of tab index red) \<and>
     (target_of tab index green \<noteq> prev_of tab index green \<or>
        Temp (greenc s) = prev_of tab index green) \<and>
     (target_of tab index blue \<noteq> prev_of tab index blue \<or>
        Temp (bluec s) = prev_of tab index blue)"
  using chan_between_red [OF assms(2,3)] chan_between_green [OF assms(2,3)]
    chan_between_blue [OF assms(2,3)]
  by (simp split: if_splits)

text \<open>
  For a keyframe whose fade time is not 32767, after any number of iterations of the fade
  loop the running value of each channel lies between the previous value and the target
  of the channel, and where these differ the value is fewer than \<open>\<bar>delta\<bar>\<close> units away
  from the previous value: fewer than \<open>\<bar>delta\<bar>\<close> adjustments have been made, and the 8-bit
  value has neither passed the target nor wrapped around.
\<close>

lemma value_between:
  assumes "in_table tab index"
    and "sint (fadeTime (tab ! nat index)) \<noteq> 32767"
    and "fade_iter (sint (fadeTime (tab ! nat index))) n (fade_init tab index) = Some s"
  shows
    "min (prev_of tab index red) (target_of tab index red) \<le> Temp (redc s) \<and>
     Temp (redc s) \<le> max (prev_of tab index red) (target_of tab index red) \<and>
     (target_of tab index red = prev_of tab index red \<or>
      \<bar>Temp (redc s) - prev_of tab index red\<bar>
        < \<bar>target_of tab index red - prev_of tab index red\<bar>) \<and>
     min (prev_of tab index green) (target_of tab index green) \<le> Temp (greenc s) \<and>
     Temp (greenc s) \<le> max (prev_of tab index green) (target_of tab index green) \<and>
     (target_of tab index green = prev_of tab index green \<or>
      \<bar>Temp (greenc s) - prev_of tab index green\<bar>
        < \<bar>target_of tab index green - prev_of tab index green\<bar>) \<and>
     min (prev_of tab index blue) (target_of tab index blue) \<le> Temp (bluec s) \<and>
     Temp (bluec s) \<le> max (prev_of tab index blue) (target_of tab index blue) \<and>
     (target_of tab index blue = prev_of tab index blue \<or>
      \<bar>Temp (bluec s) - prev_of tab index blue\<bar>
        < \<bar>target_of tab index blue - prev_of tab index blue\<bar>)"
proof -
  note r = chan_between_red [OF assms(2,3)]
  note g = chan_between_green [OF assms(2,3)]
  note b = chan_between_blue [OF assms(2,3)]
  have "target_of tab index red = prev_of tab index red \<or>
      \<bar>Temp (redc s) - prev_of tab index red\<bar>
        < \<bar>target_of tab index red - prev_of tab index red\<bar>"
    using r by (simp split: if_splits)
  moreover have "target_of tab index green = prev_of tab index green \<or>
      \<bar>Temp (greenc s) - prev_of tab index green\<bar>
        < \<bar>target_of tab index green - prev_of tab index green\<bar>"
    using g by (simp split: if_splits)
  moreover have "target_of tab index blue = prev_of tab index blue \<or>
      \<bar>Temp (bluec s) - prev_of tab index blue\<bar>
        < \<bar>target_of tab index blue - prev_of tab index blue\<bar>"
    using b by (simp split: if_splits)
  ultimately show ?thesis
    using r [THEN conjunct1] r [THEN conjunct2, THEN conjunct1]
      g [THEN conjunct1] g [THEN conjunct2, THEN conjunct1]
      b [THEN conjunct1] b [THEN conjunct2, THEN conjunct1]
    by blast
qed

subsection \<open>Running values at concrete keyframes\<close>

lemma lightTab_2: "lightTab ! 1 = elem 500 500 255 0 0" "lightTab ! 2 = elem 500 500 0 255 0"
  by (simp_all add: lightTab_def)

lemma lightTab_4: "lightTab ! 3 = elem 500 500 0 0 255" "lightTab ! 4 = elem 500 500 0 255 255"
  by (simp_all add: lightTab_def)

lemma lightTab_2_vals:
  "sint (fadeTime (lightTab ! nat 2)) = 500"
  "target_of lightTab 2 red = 255" "prev_of lightTab 2 red = 0"
  "target_of lightTab 2 green = 0" "prev_of lightTab 2 green = 255"
  "target_of lightTab 2 blue = 255" "prev_of lightTab 2 blue = 255"
proof -
  have n: "nat 2 = 2" "nat (2 - 1) = 1" by simp_all
  show "sint (fadeTime (lightTab ! nat 2)) = 500"
  "target_of lightTab 2 red = 255" "prev_of lightTab 2 red = 0"
  "target_of lightTab 2 green = 0" "prev_of lightTab 2 green = 255"
  "target_of lightTab 2 blue = 255" "prev_of lightTab 2 blue = 255"
    unfolding target_of_def prev_of_def n lightTab_2
    by (simp_all add: elem_def inverted_def uchar_def)
qed

lemma lightTab_4_vals:
  "sint (fadeTime (lightTab ! nat 4)) = 500"
  "target_of lightTab 4 red = 255" "prev_of lightTab 4 red = 255"
  "target_of lightTab 4 green = 0" "prev_of lightTab 4 green = 255"
  "target_of lightTab 4 blue = 0" "prev_of lightTab 4 blue = 0"
proof -
  have n: "nat 4 = 4" "nat (4 - 1) = 3" by simp_all
  show "sint (fadeTime (lightTab ! nat 4)) = 500"
  "target_of lightTab 4 red = 255" "prev_of lightTab 4 red = 255"
  "target_of lightTab 4 green = 0" "prev_of lightTab 4 green = 255"
  "target_of lightTab 4 blue = 0" "prev_of lightTab 4 blue = 0"
    unfolding target_of_def prev_of_def n lightTab_4
    by (simp_all add: elem_def inverted_def uchar_def)
qed

lemma fade_init_lightTab_2:
  "fade_init lightTab 2 =
     \<lparr>fadeCounter = 1,
      redc = \<lparr>Temp = 0, Time = 2, TimeInc = 2, Inc = 1\<rparr>,
      greenc = \<lparr>Temp = 255, Time = 2, TimeInc = 2, Inc = 255\<rparr>,
      bluec = \<lparr>Temp = 255, Time = 0, TimeInc = 0, Inc = 1\<rparr>\<rparr>"
  unfolding fade_init_record lightTab_2_vals chan_init_500 by (rule refl)

lemma fade_init_lightTab_4:
  "fade_init lightTab 4 =
     \<lparr>fadeCounter = 1,
      redc = \<lparr>Temp = 255, Time = 0, TimeInc = 0, Inc = 1\<rparr>,
      greenc = \<lparr>Temp = 255, Time = 2, TimeInc = 2, Inc = 255\<rparr>,
      bluec = \<lparr>Temp = 0, Time = 0, TimeInc = 0, Inc = 1\<rparr>\<rparr>"
  unfolding fade_init_record lightTab_4_vals chan_init_500 by (rule refl)

lemma constant_channel_example:
  "in_table lightTab 2 \<and> sint (fadeTime (lightTab ! nat 2)) = 500 \<and>
   fade_iter 500 4 (fade_init lightTab 2) =
     Some \<lparr>fadeCounter = 5,
       redc = \<lparr>Temp = 2, Time = 6, TimeInc = 2, Inc = 1\<rparr>,
       greenc = \<lparr>Temp = 253, Time = 6, TimeInc = 2, Inc = 255\<rparr>,
       bluec = \<lparr>Temp = 255, Time = 0, TimeInc = 0, Inc = 1\<rparr>\<rparr> \<and>
   target_of lightTab 2 blue = 255 \<and> prev_of lightTab 2 blue = 255"
proof -
  let ?s = "\<lparr>fadeCounter = 5,
       redc = \<lparr>Temp = 2, Time = 6, TimeInc = 2, Inc = 1\<rparr>,
       greenc = \<lparr>Temp = 253, Time = 6, TimeInc = 2, Inc = 255\<rparr>,
       bluec = \<lparr>Temp = 255, Time = 0, TimeInc = 0, Inc = 1\<rparr>\<rparr>"
  have n: "nat 2 = 2" "nat (2 - 1) = 1" by simp_all
  have a: "in_table lightTab 2" by (simp add: in_table_def length_lightTab)
  have b: "sint (fadeTime (lightTab ! nat 2)) = 500" by (rule lightTab_2_vals)
  have c: "fade_iter 500 4 (fade_init lightTab 2) = Some ?s"
    unfolding fade_init_lightTab_2
    by (simp add: eval_nat_numeral fade_body_def chan_step_def int16_def uchar_def)
  have d: "target_of lightTab 2 blue = 255" "prev_of lightTab 2 blue = 255"
    by (rule lightTab_2_vals)+
  have e: "sint (fadeTime (lightTab ! nat 2)) \<noteq> 32767" using b by simp
  have f: "fade_iter (sint (fadeTime (lightTab ! nat 2))) 4 (fade_init lightTab 2) = Some ?s"
    using c by (simp only: b)
  have "target_of lightTab 2 blue \<noteq> prev_of lightTab 2 blue \<or>
      Temp (bluec ?s) = prev_of lightTab 2 blue"
    using constant_channel [OF a e f] by blast
  then show ?thesis
    using a b c d by simp
qed


lemma value_between_example:
  "in_table lightTab 4 \<and> sint (fadeTime (lightTab ! nat 4)) = 500 \<and>
   fade_iter 500 4 (fade_init lightTab 4) =
     Some \<lparr>fadeCounter = 5,
       redc = \<lparr>Temp = 255, Time = 0, TimeInc = 0, Inc = 1\<rparr>,
       greenc = \<lparr>Temp = 253, Time = 6, TimeInc = 2, Inc = 255\<rparr>,
       bluec = \<lparr>Temp = 0, Time = 0, TimeInc = 0, Inc = 1\<rparr>\<rparr> \<and>
   prev_of lightTab 4 green = 255 \<and> target_of lightTab 4 green = 0 \<and>
   min (prev_of lightTab 4 green) (target_of lightTab 4 green) \<le> 253 \<and>
   253 \<le> max (prev_of lightTab 4 green) (target_of lightTab 4 green)"
proof -
  let ?s = "\<lparr>fadeCounter = 5,
       redc = \<lparr>Temp = 255, Time = 0, TimeInc = 0, Inc = 1\<rparr>,
       greenc = \<lparr>Temp = 253, Time = 6, TimeInc = 2, Inc = 255\<rparr>,
       bluec = \<lparr>Temp = 0, Time = 0, TimeInc = 0, Inc = 1\<rparr>\<rparr>"
  have n: "nat 4 = 4" "nat (4 - 1) = 3" by simp_all
  have a: "in_table lightTab 4" by (simp add: in_table_def length_lightTab)
  have b: "sint (fadeTime (lightTab ! nat 4)) = 500" by (rule lightTab_4_vals)
  have c: "fade_iter 500 4 (fade_init lightTab 4) = Some ?s"
    unfolding fade_init_lightTab_4
    by (simp add: eval_nat_numeral fade_body_def chan_step_def int16_def uchar_def)
  have d: "prev_of lightTab 4 green = 255" "target_of lightTab 4 green = 0"
    by (rule lightTab_4_vals)+
  have e: "sint (fadeTime (lightTab ! nat 4)) \<noteq> 32767" using b by simp
  have f: "fade_iter (sint (fadeTime (lightTab ! nat 4))) 4 (fade_init lightTab 4) = Some ?s"
    using c by (simp only: b)
  show ?thesis
    using value_between [OF a e f] a b c d by simp
qed




subsection \<open>Passes through the table\<close>



















text \<open>
  Claim C7. \<open>lightTab\<close> is not empty, its last entry is the sentinel \<open>{0,0,0,0,0}\<close>, no
  entry before the last has both fade time and hold time 0, and so the sentinel is the
  only entry of the table with that signature.
\<close>

theorem lightTab_sentinel:
  "lightTab \<noteq> [] \<and> length lightTab = 99 \<and> last lightTab = elem 0 0 0 0 0 \<and>
   is_sentinel (last lightTab) \<and>
   list_all (\<lambda>e. \<not> is_sentinel e) (butlast lightTab) \<and>
   filter is_sentinel lightTab = [elem 0 0 0 0 0]"
  by (simp add: lightTab_def is_sentinel_def elem_def)

lemma nonneg_sum:
  "list_all (\<lambda>e. 0 \<le> sint (fadeTime e) \<and> 0 \<le> sint (holdTime e)) xs \<Longrightarrow>
   int (sum_list (map (\<lambda>e. nat (sint (fadeTime e)) + nat (sint (holdTime e))) xs)) =
   sum_list (map (\<lambda>e. sint (fadeTime e) + sint (holdTime e)) xs)"
  by (induction xs) simp_all

lemma list_all_butlast: "list_all P xs \<Longrightarrow> list_all P (butlast xs)"
  by (induction xs) simp_all

lemma pass_ticks_total:
  assumes "nonneg_times tab"
  shows "int (count_delays (pass_events tab (length tab - 1))) = total_ticks (butlast tab)"
proof -
  have "count_delays (pass_events tab (length tab - 1)) =
     sum_list (map (\<lambda>e. nat (sint (fadeTime e)) + nat (sint (holdTime e)))
       (take (length tab - 1) tab))"
    by (rule count_delays_pass) simp
  moreover have "take (length tab - 1) tab = butlast tab" by (simp add: butlast_conv_take)
  moreover have "list_all (\<lambda>e. 0 \<le> sint (fadeTime e) \<and> 0 \<le> sint (holdTime e)) (butlast tab)"
    using assms unfolding nonneg_times_def by (rule list_all_butlast)
  ultimately show ?thesis by (simp add: total_ticks_def nonneg_sum)
qed

text \<open>
  Claim C8, amended. Each iteration of the fade loop and each iteration of the hold loop
  calls the delay exactly once, and on a playable table whose times are not negative the
  number of delays of one pass is the sum of fade time plus hold time over the entries
  before the sentinel. For \<open>lightTab\<close> this sum is 366000 (227500 of fading and 138500 of
  holding), not about 259000.
\<close>

theorem pass_ticks:
  assumes "playable tab" "nonneg_times tab"
  shows
    "count_delays (fade_out s) = 1 \<and>
     count_delays (hold_loop 0 h) = nat h \<and>
     do_while tab 0 [] = Some (Inr (int (length tab - 1), pass_events tab (length tab - 1))) \<and>
     int (count_delays (pass_events tab (length tab - 1))) = total_ticks (butlast tab) \<and>
     playable lightTab \<and> nonneg_times lightTab \<and> total_ticks (butlast lightTab) = 366000"
  using do_while_playable [OF assms(1)] pass_ticks_total [OF assms(2)]
    playable_lightTab nonneg_lightTab total_lightTab
  by (simp add: hold_loop_0)

theorem pass_ticks_witness:
  "playable lightTab \<and> nonneg_times lightTab \<and>
   do_while lightTab 0 [] = Some (Inr (98, pass_events lightTab 98)) \<and>
   int (count_delays (pass_events lightTab 98)) = 366000 \<and>
   total_ticks (butlast lightTab) = 366000"
proof -
  have l: "length lightTab - 1 = 98" by (simp add: length_lightTab)
  show ?thesis
    using pass_ticks [OF playable_lightTab nonneg_lightTab] playable_lightTab nonneg_lightTab
    by (simp only: l total_lightTab) simp
qed

theorem pass_ticks_counterexample:
  "do_while lightTab 0 [] = Some (Inr (98, pass_events lightTab 98)) \<and>
   count_delays (pass_events lightTab 98) = 366000 \<and>
   sum_list (map (\<lambda>e. sint (fadeTime e)) (butlast lightTab)) = 227500 \<and>
   sum_list (map (\<lambda>e. sint (holdTime e)) (butlast lightTab)) = 138500 \<and>
   259000 + 100000 < (366000::nat)"
proof -
  have l: "length lightTab - 1 = 98" by (simp add: length_lightTab)
  have "int (count_delays (pass_events lightTab 98)) = 366000"
    using pass_ticks_total [OF nonneg_lightTab] by (simp only: l total_lightTab)
  then have "count_delays (pass_events lightTab 98) = 366000" by simp
  then show ?thesis
    using do_while_playable [OF playable_lightTab] fade_total_lightTab
    by (simp only: l) simp
qed

end
